theory Spec2Isabelle
  imports Main
begin

section \<open>Rows of the rule table (casbinRule.ts)\<close>

text \<open>
  \<^verbatim>\<open>NewCasbinRule\<close> is a row without its surrogate key: \<^verbatim>\<open>ptype\<close> and the six
  positional columns, each \<^verbatim>\<open>string | null\<close> (\<open>None\<close> is SQL NULL).
  \<^verbatim>\<open>CasbinRule\<close> adds the key; the field is called \<open>id_col\<close> here because
  \<open>id\<close> is the identity function of HOL.
\<close>

record NewCasbinRule =
  ptype :: "string option"
  v0 :: "string option"
  v1 :: "string option"
  v2 :: "string option"
  v3 :: "string option"
  v4 :: "string option"
  v5 :: "string option"

record CasbinRule = NewCasbinRule +
  id_col :: nat

text \<open>The column \<^verbatim>\<open>v<i>\<close> of a row, by index; there is no such column from 6 on.\<close>

definition vcol :: "nat \<Rightarrow> 'a NewCasbinRule_scheme \<Rightarrow> string option" where
  "vcol i r =
     (if i = 0 then v0 r else if i = 1 then v1 r else if i = 2 then v2 r
      else if i = 3 then v3 r else if i = 4 then v4 r else if i = 5 then v5 r
      else None)"

section \<open>Tuple to row: savePolicyLine\<close>

definition savePolicyLine :: "string \<Rightarrow> string list \<Rightarrow> NewCasbinRule" where
  "savePolicyLine pt rule =
     \<lparr> ptype = Some pt,
       v0 = (if length rule > 0 then Some (rule ! 0) else None),
       v1 = (if length rule > 1 then Some (rule ! 1) else None),
       v2 = (if length rule > 2 then Some (rule ! 2) else None),
       v3 = (if length rule > 3 then Some (rule ! 3) else None),
       v4 = (if length rule > 4 then Some (rule ! 4) else None),
       v5 = (if length rule > 5 then Some (rule ! 5) else None) \<rparr>"

section \<open>Row to rule line: loadPolicyLine\<close>

text \<open>
  JavaScript truthiness of a \<^verbatim>\<open>string | null\<close>: \<^verbatim>\<open>null\<close> and the empty string
  are falsy, every other string is truthy.
\<close>

definition truthy :: "string option \<Rightarrow> bool" where
  "truthy n = (case n of None \<Rightarrow> False | Some s \<Rightarrow> s \<noteq> [])"

text \<open>String conversion turns \<^verbatim>\<open>null\<close> into the text \<^verbatim>\<open>null\<close>.\<close>

definition to_string :: "string option \<Rightarrow> string" where
  "to_string n = (case n of None \<Rightarrow> ''null'' | Some s \<Rightarrow> s)"

text \<open>The template \<^verbatim>\<open>`"${n}"`\<close>: the value as text between two double quotes.\<close>

definition quote :: "string option \<Rightarrow> string" where
  "quote n = [CHR 0x22] @ to_string n @ [CHR 0x22]"

text \<open>\<^verbatim>\<open>Array.prototype.join\<close>.\<close>

fun join :: "string \<Rightarrow> string list \<Rightarrow> string" where
  "join sep [] = []"
| "join sep [x] = x"
| "join sep (x # y # ys) = x @ sep @ join sep (y # ys)"

text \<open>
  The values kept by \<^verbatim>\<open>[line.v0, ..., line.v5].filter((n) => n)\<close>, and the text
  \<^verbatim>\<open>result\<close> built from them.
\<close>

definition loadPolicyLine_values :: "'a NewCasbinRule_scheme \<Rightarrow> string option list" where
  "loadPolicyLine_values line =
     filter truthy [v0 line, v1 line, v2 line, v3 line, v4 line, v5 line]"

definition loadPolicyLine_result :: "'a NewCasbinRule_scheme \<Rightarrow> string" where
  "loadPolicyLine_result line =
     to_string (ptype line) @ '', '' @ join '', '' (map quote (loadPolicyLine_values line))"

section \<open>The query interface\<close>

text \<open>
  The adapter talks to the database through four calls of the query builder
  (\<^verbatim>\<open>select\<close>, \<^verbatim>\<open>insert\<close>, \<^verbatim>\<open>delete\<close>, \<^verbatim>\<open>update\<close>) and two predicate
  constructors (\<^verbatim>\<open>eq\<close>, \<^verbatim>\<open>and\<close>). They are not part of the adapter; this section
  fixes the reference semantics the adapter is verified against: the default SQLite
  table, where text equality is exact and a NULL column equals nothing.
\<close>

datatype column = Col_ptype | Col_v0 | Col_v1 | Col_v2 | Col_v3 | Col_v4 | Col_v5

datatype SQL = Eq column string | And "SQL list"

text \<open>
  \<^verbatim>\<open>and(...conditions)\<close> is \<^verbatim>\<open>undefined\<close> for no condition, and a \<^verbatim>\<open>where\<close>
  with \<^verbatim>\<open>undefined\<close> restricts nothing.
\<close>

definition and_sql :: "SQL list \<Rightarrow> SQL option" where
  "and_sql conditions = (if conditions = [] then None else Some (And conditions))"

definition colval :: "column \<Rightarrow> 'a NewCasbinRule_scheme \<Rightarrow> string option" where
  "colval c r =
     (case c of Col_ptype \<Rightarrow> ptype r | Col_v0 \<Rightarrow> v0 r | Col_v1 \<Rightarrow> v1 r | Col_v2 \<Rightarrow> v2 r
      | Col_v3 \<Rightarrow> v3 r | Col_v4 \<Rightarrow> v4 r | Col_v5 \<Rightarrow> v5 r)"

fun holds :: "SQL \<Rightarrow> 'a NewCasbinRule_scheme \<Rightarrow> bool" where
  "holds (Eq c s) r = (colval c r = Some s)"
| "holds (And cs) r = list_all (\<lambda>c. holds c r) cs"

definition matches :: "SQL option \<Rightarrow> 'a NewCasbinRule_scheme \<Rightarrow> bool" where
  "matches w r = (case w of None \<Rightarrow> True | Some c \<Rightarrow> holds c r)"

text \<open>
  The statements the adapter can issue. The database keeps its rows in insertion order,
  the next value of the auto-incremented key, and a log of every statement issued.
  A statement may fail (connection loss and the like): \<open>faulty d n\<close> says that the
  statement issued when \<open>n\<close> statements have been issued before fails. A failing
  statement changes no row.
\<close>

datatype stmt =
    Select "SQL option"
  | Insert "NewCasbinRule list"
  | Delete "SQL option"
  | Update NewCasbinRule "SQL option"

record database =
  rows :: "CasbinRule list"
  next_id :: nat
  log :: "stmt list"
  faulty :: "nat \<Rightarrow> bool"

datatype error = QueryError | HelperError

datatype 'a outcome = Returned 'a | Threw error

definition fails :: "database \<Rightarrow> bool" where
  "fails d = faulty d (length (log d))"

definition issue :: "stmt \<Rightarrow> database \<Rightarrow> database" where
  "issue s d = d\<lparr>log := log d @ [s]\<rparr>"

definition stored :: "nat \<Rightarrow> NewCasbinRule \<Rightarrow> CasbinRule" where
  "stored i line =
     \<lparr> ptype = ptype line, v0 = v0 line, v1 = v1 line, v2 = v2 line, v3 = v3 line,
       v4 = v4 line, v5 = v5 line, id_col = i \<rparr>"

definition assign :: "NewCasbinRule \<Rightarrow> CasbinRule \<Rightarrow> CasbinRule" where
  "assign line r =
     r\<lparr> ptype := ptype line, v0 := v0 line, v1 := v1 line, v2 := v2 line, v3 := v3 line,
       v4 := v4 line, v5 := v5 line \<rparr>"

definition select_from :: "SQL option \<Rightarrow> database \<Rightarrow> CasbinRule list outcome \<times> database" where
  "select_from w d =
     (if fails d then (Threw QueryError, issue (Select w) d)
      else (Returned (filter (matches w) (rows d)), issue (Select w) d))"

definition insert_values :: "NewCasbinRule list \<Rightarrow> database \<Rightarrow> unit outcome \<times> database" where
  "insert_values lines d =
     (if fails d then (Threw QueryError, issue (Insert lines) d)
      else (Returned (),
            issue (Insert lines)
              (d\<lparr> rows := rows d @ map2 stored [next_id d ..< next_id d + length lines] lines,
                  next_id := next_id d + length lines \<rparr>)))"

definition delete_from :: "SQL option \<Rightarrow> database \<Rightarrow> unit outcome \<times> database" where
  "delete_from w d =
     (if fails d then (Threw QueryError, issue (Delete w) d)
      else (Returned (), issue (Delete w) (d\<lparr> rows := filter (\<lambda>r. \<not> matches w r) (rows d) \<rparr>)))"

definition update_set :: "NewCasbinRule \<Rightarrow> SQL option \<Rightarrow> database \<Rightarrow> unit outcome \<times> database" where
  "update_set line w d =
     (if fails d then (Threw QueryError, issue (Update line w) d)
      else (Returned (),
            issue (Update line w)
              (d\<lparr> rows := map (\<lambda>r. if matches w r then assign line r else r) (rows d) \<rparr>)))"

section \<open>The adapter (adapter.ts)\<close>

text \<open>
  \<^verbatim>\<open>FilterOptions\<close>: every field is optional, \<open>None\<close> is \<^verbatim>\<open>undefined\<close>. The fields
  carry the prefix \<open>filter_\<close> to keep them apart from the columns of a row.
\<close>

record FilterOptions =
  filter_ptype :: "string option"
  filter_v0 :: "string option"
  filter_v1 :: "string option"
  filter_v2 :: "string option"
  filter_v3 :: "string option"
  filter_v4 :: "string option"
  filter_v5 :: "string option"

text \<open>
  What the adapter reads of the enforcer's model: \<^verbatim>\<open>model.model.get(sec)\<close> is a
  \<^verbatim>\<open>Map\<close> from policy type to assertion, iterated in insertion order, and
  \<^verbatim>\<open>ast.policy\<close> is the list of rule tuples.
\<close>

record Assertion =
  policy :: "string list list"

record Model =
  model :: "string \<Rightarrow> (string \<times> Assertion) list option"

text \<open>
  The adapter object: the database behind its \<^verbatim>\<open>db\<close> handle and the flag
  \<^verbatim>\<open>filtered\<close>. The table descriptor only names the columns and is left out.
\<close>

record DrizzleAdapter =
  db :: database
  filtered :: bool

definition newAdapter :: "database \<Rightarrow> DrizzleAdapter" where
  "newAdapter d = \<lparr> db = d, filtered = False \<rparr>"

definition isFiltered :: "DrizzleAdapter \<Rightarrow> bool" where
  "isFiltered a = filtered a"

text \<open>
  \<^verbatim>\<open>Helper.loadPolicyLine\<close> belongs to the enforcer library. It is a parameter of the
  loading functions: it takes the rule line and the model, may throw, and leaves the
  model in some state either way.
\<close>

type_synonym 'm helper = "string \<Rightarrow> 'm \<Rightarrow> unit outcome \<times> 'm"

definition loadPolicyLine ::
  "'m helper \<Rightarrow> 'a NewCasbinRule_scheme \<Rightarrow> 'm \<Rightarrow> unit outcome \<times> 'm" where
  "loadPolicyLine helper line m = helper (loadPolicyLine_result line) m"

text \<open>The loop \<^verbatim>\<open>for (const line of lines) this.loadPolicyLine(line, model)\<close>.\<close>

fun loadPolicyLines :: "'m helper \<Rightarrow> CasbinRule list \<Rightarrow> 'm \<Rightarrow> unit outcome \<times> 'm" where
  "loadPolicyLines helper [] m = (Returned (), m)"
| "loadPolicyLines helper (line # lines) m =
     (case loadPolicyLine helper line m of
        (Returned u, m') \<Rightarrow> loadPolicyLines helper lines m'
      | (Threw e, m') \<Rightarrow> (Threw e, m'))"

definition loadPolicy ::
  "'m helper \<Rightarrow> 'm \<Rightarrow> DrizzleAdapter \<Rightarrow> unit outcome \<times> 'm \<times> DrizzleAdapter" where
  "loadPolicy helper m a =
     (case select_from None (db a) of
        (Threw e, d) \<Rightarrow> (Threw e, m, a\<lparr>db := d\<rparr>)
      | (Returned lines, d) \<Rightarrow>
          (case loadPolicyLines helper lines m of (r, m') \<Rightarrow> (r, m', a\<lparr>db := d\<rparr>)))"

text \<open>
  The clause list of \<^verbatim>\<open>loadFilteredPolicy\<close>: one \<^verbatim>\<open>eq\<close> pushed for every filter
  field that is not \<^verbatim>\<open>undefined\<close>, in the order of the seven tests.
\<close>

definition loadFilteredPolicy_conditions :: "FilterOptions \<Rightarrow> SQL list" where
  "loadFilteredPolicy_conditions fltr =
     (case filter_ptype fltr of None \<Rightarrow> [] | Some x \<Rightarrow> [Eq Col_ptype x]) @
     (case filter_v0 fltr of None \<Rightarrow> [] | Some x \<Rightarrow> [Eq Col_v0 x]) @
     (case filter_v1 fltr of None \<Rightarrow> [] | Some x \<Rightarrow> [Eq Col_v1 x]) @
     (case filter_v2 fltr of None \<Rightarrow> [] | Some x \<Rightarrow> [Eq Col_v2 x]) @
     (case filter_v3 fltr of None \<Rightarrow> [] | Some x \<Rightarrow> [Eq Col_v3 x]) @
     (case filter_v4 fltr of None \<Rightarrow> [] | Some x \<Rightarrow> [Eq Col_v4 x]) @
     (case filter_v5 fltr of None \<Rightarrow> [] | Some x \<Rightarrow> [Eq Col_v5 x])"

definition loadFilteredPolicy ::
  "'m helper \<Rightarrow> 'm \<Rightarrow> FilterOptions \<Rightarrow> DrizzleAdapter \<Rightarrow> unit outcome \<times> 'm \<times> DrizzleAdapter" where
  "loadFilteredPolicy helper m fltr a =
     (let conditions = loadFilteredPolicy_conditions fltr;
          query = (if length conditions > 0 then select_from (and_sql conditions)
                   else select_from None)
      in case query (db a) of
           (Threw e, d) \<Rightarrow> (Threw e, m, a\<lparr>db := d\<rparr>)
         | (Returned filteredLines, d) \<Rightarrow>
             (case loadPolicyLines helper filteredLines m of
                (Returned u, m') \<Rightarrow> (Returned (), m', a\<lparr>db := d, filtered := True\<rparr>)
              | (Threw e, m') \<Rightarrow> (Threw e, m', a\<lparr>db := d\<rparr>)))"

text \<open>
  The two nested loops of \<^verbatim>\<open>savePolicy\<close> over one rule family: every assertion of
  the map in its order, every rule of the assertion in its order.
\<close>

definition family_lines :: "(string \<times> Assertion) list option \<Rightarrow> NewCasbinRule list" where
  "family_lines astMap =
     (case astMap of
        None \<Rightarrow> []
      | Some entries \<Rightarrow> concat (map (\<lambda>(pt, ast). map (savePolicyLine pt) (policy ast)) entries))"

definition savePolicy :: "Model \<Rightarrow> DrizzleAdapter \<Rightarrow> bool outcome \<times> DrizzleAdapter" where
  "savePolicy m a =
     (case delete_from None (db a) of
        (Threw e, d) \<Rightarrow> (Threw e, a\<lparr>db := d\<rparr>)
      | (Returned u, d) \<Rightarrow>
          (let lines = family_lines (model m ''p'') @ family_lines (model m ''g'')
           in if length lines > 0
              then (case insert_values lines d of
                      (Threw e, d') \<Rightarrow> (Threw e, a\<lparr>db := d'\<rparr>)
                    | (Returned u', d') \<Rightarrow> (Returned True, a\<lparr>db := d'\<rparr>))
              else (Returned True, a\<lparr>db := d\<rparr>)))"

definition addPolicy ::
  "string \<Rightarrow> string \<Rightarrow> string list \<Rightarrow> DrizzleAdapter \<Rightarrow> unit outcome \<times> DrizzleAdapter" where
  "addPolicy sec pt rule a =
     (let line = savePolicyLine pt rule
      in case insert_values [line] (db a) of (r, d) \<Rightarrow> (r, a\<lparr>db := d\<rparr>))"

definition addPolicies ::
  "string \<Rightarrow> string \<Rightarrow> string list list \<Rightarrow> DrizzleAdapter \<Rightarrow> unit outcome \<times> DrizzleAdapter" where
  "addPolicies sec pt rules a =
     (let lines = map (savePolicyLine pt) rules
      in if length lines > 0
         then (case insert_values lines (db a) of (r, d) \<Rightarrow> (r, a\<lparr>db := d\<rparr>))
         else (Returned (), a))"

text \<open>
  The clause list of \<^verbatim>\<open>updatePolicy\<close>: it starts with the equality on \<^verbatim>\<open>ptype\<close>,
  then one \<^verbatim>\<open>eq\<close> is pushed for every column of the old line that is not
  \<^verbatim>\<open>null\<close>. The update sets the seven columns named in \<^verbatim>\<open>set({...})\<close>.
\<close>

definition updatePolicy_conditions :: "string \<Rightarrow> NewCasbinRule \<Rightarrow> SQL list" where
  "updatePolicy_conditions pt oldLine =
     [Eq Col_ptype pt] @
     (case v0 oldLine of None \<Rightarrow> [] | Some x \<Rightarrow> [Eq Col_v0 x]) @
     (case v1 oldLine of None \<Rightarrow> [] | Some x \<Rightarrow> [Eq Col_v1 x]) @
     (case v2 oldLine of None \<Rightarrow> [] | Some x \<Rightarrow> [Eq Col_v2 x]) @
     (case v3 oldLine of None \<Rightarrow> [] | Some x \<Rightarrow> [Eq Col_v3 x]) @
     (case v4 oldLine of None \<Rightarrow> [] | Some x \<Rightarrow> [Eq Col_v4 x]) @
     (case v5 oldLine of None \<Rightarrow> [] | Some x \<Rightarrow> [Eq Col_v5 x])"

definition updatePolicy ::
  "string \<Rightarrow> string \<Rightarrow> string list \<Rightarrow> string list \<Rightarrow> DrizzleAdapter
     \<Rightarrow> unit outcome \<times> DrizzleAdapter" where
  "updatePolicy sec pt oldRule newRule a =
     (let oldLine = savePolicyLine pt oldRule;
          newLine = savePolicyLine pt newRule;
          conditions = updatePolicy_conditions pt oldLine
      in case update_set
                \<lparr> ptype = ptype newLine, v0 = v0 newLine, v1 = v1 newLine, v2 = v2 newLine,
                  v3 = v3 newLine, v4 = v4 newLine, v5 = v5 newLine \<rparr>
                (and_sql conditions) (db a) of
           (r, d) \<Rightarrow> (r, a\<lparr>db := d\<rparr>))"

text \<open>The clause list of \<^verbatim>\<open>removePolicy\<close>, built by its own six tests.\<close>

definition removePolicy_conditions :: "string \<Rightarrow> NewCasbinRule \<Rightarrow> SQL list" where
  "removePolicy_conditions pt line =
     [Eq Col_ptype pt] @
     (case v0 line of None \<Rightarrow> [] | Some x \<Rightarrow> [Eq Col_v0 x]) @
     (case v1 line of None \<Rightarrow> [] | Some x \<Rightarrow> [Eq Col_v1 x]) @
     (case v2 line of None \<Rightarrow> [] | Some x \<Rightarrow> [Eq Col_v2 x]) @
     (case v3 line of None \<Rightarrow> [] | Some x \<Rightarrow> [Eq Col_v3 x]) @
     (case v4 line of None \<Rightarrow> [] | Some x \<Rightarrow> [Eq Col_v4 x]) @
     (case v5 line of None \<Rightarrow> [] | Some x \<Rightarrow> [Eq Col_v5 x])"

definition removePolicy ::
  "string \<Rightarrow> string \<Rightarrow> string list \<Rightarrow> DrizzleAdapter \<Rightarrow> unit outcome \<times> DrizzleAdapter" where
  "removePolicy sec pt rule a =
     (let line = savePolicyLine pt rule;
          conditions = removePolicy_conditions pt line
      in case delete_from (and_sql conditions) (db a) of (r, d) \<Rightarrow> (r, a\<lparr>db := d\<rparr>))"

fun removePolicies ::
  "string \<Rightarrow> string \<Rightarrow> string list list \<Rightarrow> DrizzleAdapter \<Rightarrow> unit outcome \<times> DrizzleAdapter" where
  "removePolicies sec pt [] a = (Returned (), a)"
| "removePolicies sec pt (rule # rules) a =
     (case removePolicy sec pt rule a of
        (Returned u, a') \<Rightarrow> removePolicies sec pt rules a'
      | (Threw e, a') \<Rightarrow> (Threw e, a'))"

text \<open>
  The \<^verbatim>\<open>switch (fieldIdx)\<close> of \<^verbatim>\<open>removeFilteredPolicy\<close>: the clause pushed for a
  truthy value at column index \<open>fieldIdx\<close>, none outside 0..5. The index is a
  JavaScript number; the enforcer passes integers, so it is an \<open>int\<close> here.
\<close>

definition field_condition :: "int \<Rightarrow> string \<Rightarrow> SQL list" where
  "field_condition fieldIdx val =
     (if fieldIdx = 0 then [Eq Col_v0 val]
      else if fieldIdx = 1 then [Eq Col_v1 val]
      else if fieldIdx = 2 then [Eq Col_v2 val]
      else if fieldIdx = 3 then [Eq Col_v3 val]
      else if fieldIdx = 4 then [Eq Col_v4 val]
      else if fieldIdx = 5 then [Eq Col_v5 val]
      else [])"

text \<open>The loop \<^verbatim>\<open>for (let i = 0; i < fieldValues.length; i++)\<close>, from index \<open>i\<close> on.\<close>

function removeFilteredPolicy_loop ::
  "int \<Rightarrow> string list \<Rightarrow> nat \<Rightarrow> SQL list \<Rightarrow> SQL list" where
  "removeFilteredPolicy_loop fieldIndex fieldValues i conditions =
     (if i < length fieldValues
      then (let fieldIdx = fieldIndex + int i;
                val = fieldValues ! i
            in removeFilteredPolicy_loop fieldIndex fieldValues (i + 1)
                 (if val \<noteq> [] then conditions @ field_condition fieldIdx val else conditions))
      else conditions)"
  by pat_completeness auto
termination
  by (relation "measure (\<lambda>(fieldIndex, fieldValues, i, conditions). length fieldValues - i)") auto

declare removeFilteredPolicy_loop.simps [simp del]

text \<open>
  \<^verbatim>\<open>removeFilteredPolicy\<close>: the clause on \<^verbatim>\<open>ptype\<close> when it is truthy, the loop
  over the values, and the delete only when some clause was pushed.
\<close>

definition removeFilteredPolicy ::
  "string \<Rightarrow> string \<Rightarrow> int \<Rightarrow> string list \<Rightarrow> DrizzleAdapter \<Rightarrow> unit outcome \<times> DrizzleAdapter" where
  "removeFilteredPolicy sec pt fieldIndex fieldValues a =
     (let conditions =
            removeFilteredPolicy_loop fieldIndex fieldValues 0
              (if pt \<noteq> [] then [Eq Col_ptype pt] else [])
      in if length conditions > 0
         then (case delete_from (and_sql conditions) (db a) of (r, d) \<Rightarrow> (r, a\<lparr>db := d\<rparr>))
         else (Returned (), a))"

subsection \<open>Sequences of calls on one adapter\<close>

datatype operation =
    LoadPolicy Model
  | LoadFilteredPolicy Model FilterOptions
  | SavePolicy Model
  | AddPolicy string string "string list"
  | AddPolicies string string "string list list"
  | UpdatePolicy string string "string list" "string list"
  | RemovePolicy string string "string list"
  | RemovePolicies string string "string list list"
  | RemoveFilteredPolicy string string int "string list"
  | IsFiltered

definition completed :: "'a outcome \<Rightarrow> bool" where
  "completed r = (case r of Returned x \<Rightarrow> True | Threw e \<Rightarrow> False)"

text \<open>One call: whether it returned (rather than threw), and the adapter after it.\<close>

fun perform :: "Model helper \<Rightarrow> operation \<Rightarrow> DrizzleAdapter \<Rightarrow> bool \<times> DrizzleAdapter" where
  "perform helper (LoadPolicy m) a =
     (case loadPolicy helper m a of (r, m', a') \<Rightarrow> (completed r, a'))"
| "perform helper (LoadFilteredPolicy m fltr) a =
     (case loadFilteredPolicy helper m fltr a of (r, m', a') \<Rightarrow> (completed r, a'))"
| "perform helper (SavePolicy m) a =
     (case savePolicy m a of (r, a') \<Rightarrow> (completed r, a'))"
| "perform helper (AddPolicy sec pt rule) a =
     (case addPolicy sec pt rule a of (r, a') \<Rightarrow> (completed r, a'))"
| "perform helper (AddPolicies sec pt rules) a =
     (case addPolicies sec pt rules a of (r, a') \<Rightarrow> (completed r, a'))"
| "perform helper (UpdatePolicy sec pt oldRule newRule) a =
     (case updatePolicy sec pt oldRule newRule a of (r, a') \<Rightarrow> (completed r, a'))"
| "perform helper (RemovePolicy sec pt rule) a =
     (case removePolicy sec pt rule a of (r, a') \<Rightarrow> (completed r, a'))"
| "perform helper (RemovePolicies sec pt rules) a =
     (case removePolicies sec pt rules a of (r, a') \<Rightarrow> (completed r, a'))"
| "perform helper (RemoveFilteredPolicy sec pt fieldIndex fieldValues) a =
     (case removeFilteredPolicy sec pt fieldIndex fieldValues a of (r, a') \<Rightarrow> (completed r, a'))"
| "perform helper IsFiltered a = (True, a)"

text \<open>A sequence of calls: which of them returned, and the adapter at the end.\<close>

fun run :: "Model helper \<Rightarrow> operation list \<Rightarrow> DrizzleAdapter \<Rightarrow> bool list \<times> DrizzleAdapter" where
  "run helper [] a = ([], a)"
| "run helper (x # xs) a =
     (case perform helper x a of
        (c, a') \<Rightarrow> (case run helper xs a' of (cs, a'') \<Rightarrow> (c # cs, a'')))"

definition is_loadFilteredPolicy :: "operation \<Rightarrow> bool" where
  "is_loadFilteredPolicy x = (case x of LoadFilteredPolicy m fltr \<Rightarrow> True | _ \<Rightarrow> False)"

subsection \<open>The predicates as the specification words them\<close>

text \<open>
  For \<^verbatim>\<open>removeFilteredPolicy\<close>, in the specification's words: equality on
  \<^verbatim>\<open>ptype\<close> when the given one is non-empty, and for each supplied non-empty value
  at list position \<open>i\<close> equality on column \<^verbatim>\<open>v<fieldIndex+i>\<close> when that index lies
  in 0..5. \<open>removeFilteredPolicy_constrains\<close> says that at least one such
  constraint is present.
\<close>

definition removeFilteredPolicy_constrains :: "string \<Rightarrow> int \<Rightarrow> string list \<Rightarrow> bool" where
  "removeFilteredPolicy_constrains pt fieldIndex fieldValues =
     (pt \<noteq> [] \<or>
      (\<exists>i. i < length fieldValues \<and> fieldValues ! i \<noteq> [] \<and>
           0 \<le> fieldIndex + int i \<and> fieldIndex + int i \<le> 5))"

definition removeFilteredPolicy_predicate ::
  "string \<Rightarrow> int \<Rightarrow> string list \<Rightarrow> 'a NewCasbinRule_scheme \<Rightarrow> bool" where
  "removeFilteredPolicy_predicate pt fieldIndex fieldValues r =
     ((pt \<noteq> [] \<longrightarrow> ptype r = Some pt) \<and>
      (\<forall>i. i < length fieldValues \<and> fieldValues ! i \<noteq> [] \<and>
           0 \<le> fieldIndex + int i \<and> fieldIndex + int i \<le> 5 \<longrightarrow>
           vcol (nat (fieldIndex + int i)) r = Some (fieldValues ! i)))"


text \<open>
  For \<^verbatim>\<open>updatePolicy\<close> and \<^verbatim>\<open>removePolicy\<close>, in the specification's words: the
  row's \<^verbatim>\<open>ptype\<close> equals the given one and its \<^verbatim>\<open>v<i>\<close> equals the tuple's field
  \<open>i\<close> for every \<open>i\<close> below the tuple's length. \<open>v_column\<close> names the column of a
  tuple position.
\<close>

definition rule_predicate :: "string \<Rightarrow> string list \<Rightarrow> 'a NewCasbinRule_scheme \<Rightarrow> bool" where
  "rule_predicate pt rule r =
     (ptype r = Some pt \<and> (\<forall>i. i < length rule \<longrightarrow> vcol i r = Some (rule ! i)))"

definition v_column :: "nat \<Rightarrow> column" where
  "v_column i =
     (if i = 0 then Col_v0 else if i = 1 then Col_v1 else if i = 2 then Col_v2
      else if i = 3 then Col_v3 else if i = 4 then Col_v4 else Col_v5)"

text \<open>
  For \<^verbatim>\<open>savePolicy\<close>, in the specification's words: the rule tuples of the model with
  their policy types, those of the family \<^verbatim>\<open>p\<close> first and those of the family
  \<^verbatim>\<open>g\<close> after, each family in the model's iteration order.
\<close>

definition family_rules :: "(string \<times> Assertion) list option \<Rightarrow> (string \<times> string list) list" where
  "family_rules astMap =
     (case astMap of
        None \<Rightarrow> []
      | Some entries \<Rightarrow> concat (map (\<lambda>(pt, ast). map (\<lambda>rule. (pt, rule)) (policy ast)) entries))"

definition model_rules :: "Model \<Rightarrow> (string \<times> string list) list" where
  "model_rules m = family_rules (model m ''p'') @ family_rules (model m ''g'')"



subsection \<open>Concrete inputs\<close>

text \<open>
  An empty table on a database whose statements all succeed, and a stand-in for the
  enforcer's line parser that records the lines it is given.
\<close>

definition empty_db :: database where
  "empty_db = \<lparr> rows = [], next_id = 1, log = [], faulty = (\<lambda>n. False) \<rparr>"

definition collect :: "string list helper" where
  "collect line m = (Returned (), m @ [line])"

text \<open>A line parser that accepts every line and leaves the model alone.\<close>

definition accept_line :: "'m helper" where
  "accept_line line m = (Returned (), m)"

text \<open>The filter with every field undefined, and a model without rules.\<close>

definition no_filter :: FilterOptions where
  "no_filter = \<lparr> filter_ptype = None, filter_v0 = None, filter_v1 = None, filter_v2 = None,
                 filter_v3 = None, filter_v4 = None, filter_v5 = None \<rparr>"

definition no_rules :: Model where
  "no_rules = \<lparr> model = (\<lambda>sec. None) \<rparr>"

text \<open>
  The table of the repository's tests: the four permission rules and the role
  assignment of the RBAC example, on a database whose statements all succeed.
\<close>

definition rbac_db :: database where
  "rbac_db =
     \<lparr> rows =
         [stored 1 (savePolicyLine ''p'' [''alice'', ''data1'', ''read'']),
          stored 2 (savePolicyLine ''p'' [''bob'', ''data2'', ''write'']),
          stored 3 (savePolicyLine ''p'' [''data2_admin'', ''data2'', ''read'']),
          stored 4 (savePolicyLine ''p'' [''data2_admin'', ''data2'', ''write'']),
          stored 5 (savePolicyLine ''g'' [''alice'', ''data2_admin''])],
       next_id = 6, log = [], faulty = (\<lambda>n. False) \<rparr>"


text \<open>The model of the repository's tests, whose rules are the rows of \<open>rbac_db\<close>.\<close>

definition rbac_model :: Model where
  "rbac_model =
     \<lparr> model = (\<lambda>sec.
         if sec = ''p''
         then Some [(''p'', \<lparr> policy = [[''alice'', ''data1'', ''read''],
                                         [''bob'', ''data2'', ''write''],
                                         [''data2_admin'', ''data2'', ''read''],
                                         [''data2_admin'', ''data2'', ''write'']] \<rparr>)]
         else if sec = ''g''
         then Some [(''g'', \<lparr> policy = [[''alice'', ''data2_admin'']] \<rparr>)]
         else None) \<rparr>"

section \<open>Basic facts\<close>



lemma vcol_savePolicyLine:
  "vcol i (savePolicyLine pt rule) = (if i < length rule \<and> i < 6 then Some (rule ! i) else None)"
  by (simp add: vcol_def savePolicyLine_def)

lemma ptype_savePolicyLine: "ptype (savePolicyLine pt rule) = Some pt"
  by (simp add: savePolicyLine_def)




lemma rows_issue: "rows (issue s d) = rows d"
  by (simp add: issue_def)



lemma insert_values_ok:
  "\<not> fails d \<Longrightarrow> insert_values lines d =
     (Returned (),
      issue (Insert lines)
        (d\<lparr> rows := rows d @ map2 stored [next_id d ..< next_id d + length lines] lines,
            next_id := next_id d + length lines \<rparr>))"
  by (simp add: insert_values_def)

lemma delete_from_ok:
  "\<not> fails d \<Longrightarrow> delete_from w d =
     (Returned (), issue (Delete w) (d\<lparr> rows := filter (\<lambda>r. \<not> matches w r) (rows d) \<rparr>))"
  by (simp add: delete_from_def)

lemma update_set_ok:
  "\<not> fails d \<Longrightarrow> update_set line w d =
     (Returned (),
      issue (Update line w)
        (d\<lparr> rows := map (\<lambda>r. if matches w r then assign line r else r) (rows d) \<rparr>))"
  by (simp add: update_set_def)


lemma filtered_loadPolicy: "filtered (snd (snd (loadPolicy helper m a))) = filtered a"
  by (simp add: loadPolicy_def split: prod.splits outcome.splits)

lemma filtered_loadFilteredPolicy:
  "filtered (snd (snd (loadFilteredPolicy helper m fltr a)))
     = (filtered a \<or> completed (fst (loadFilteredPolicy helper m fltr a)))"
  by (simp add: loadFilteredPolicy_def completed_def Let_def split: prod.splits outcome.splits)

lemma filtered_savePolicy: "filtered (snd (savePolicy m a)) = filtered a"
  by (simp add: savePolicy_def Let_def split: prod.splits outcome.splits)

lemma filtered_addPolicy: "filtered (snd (addPolicy sec pt rule a)) = filtered a"
  by (simp add: addPolicy_def Let_def split: prod.splits)

lemma filtered_addPolicies: "filtered (snd (addPolicies sec pt rules a)) = filtered a"
  by (simp add: addPolicies_def Let_def split: prod.splits)

lemma filtered_updatePolicy: "filtered (snd (updatePolicy sec pt oldRule newRule a)) = filtered a"
  by (simp add: updatePolicy_def Let_def split: prod.splits)

lemma filtered_removePolicy: "filtered (snd (removePolicy sec pt rule a)) = filtered a"
  by (simp add: removePolicy_def Let_def split: prod.splits)

lemma filtered_removePolicies: "filtered (snd (removePolicies sec pt rules a)) = filtered a"
proof (induction rules arbitrary: a)
  case Nil
  show ?case by simp
next
  case (Cons rule rules)
  obtain r1 a1 where one: "removePolicy sec pt rule a = (r1, a1)"
    by (cases "removePolicy sec pt rule a")
  have f1: "filtered a1 = filtered a"
    using filtered_removePolicy [of sec pt rule a] one by simp
  show ?case
  proof (cases r1)
    case (Returned u)
    then show ?thesis using Cons.IH [of a1] f1 one by simp
  next
    case (Threw e)
    then show ?thesis using f1 one by simp
  qed
qed

lemma filtered_removeFilteredPolicy:
  "filtered (snd (removeFilteredPolicy sec pt fieldIndex fieldValues a)) = filtered a"
  by (simp add: removeFilteredPolicy_def Let_def split: prod.splits)

lemma filtered_perform:
  "filtered (snd (perform helper x a))
     = (filtered a \<or> (is_loadFilteredPolicy x \<and> fst (perform helper x a)))"
proof (cases x)
  case (LoadPolicy m)
  then show ?thesis
    by (simp add: is_loadFilteredPolicy_def split_beta filtered_loadPolicy)
next
  case (LoadFilteredPolicy m fltr)
  then show ?thesis
    by (simp add: is_loadFilteredPolicy_def split_beta filtered_loadFilteredPolicy)
next
  case (SavePolicy m)
  then show ?thesis
    by (simp add: is_loadFilteredPolicy_def split_beta filtered_savePolicy)
next
  case (AddPolicy sec pt rule)
  then show ?thesis
    by (simp add: is_loadFilteredPolicy_def split_beta filtered_addPolicy)
next
  case (AddPolicies sec pt rules)
  then show ?thesis
    by (simp add: is_loadFilteredPolicy_def split_beta filtered_addPolicies)
next
  case (UpdatePolicy sec pt oldRule newRule)
  then show ?thesis
    by (simp add: is_loadFilteredPolicy_def split_beta filtered_updatePolicy)
next
  case (RemovePolicy sec pt rule)
  then show ?thesis
    by (simp add: is_loadFilteredPolicy_def split_beta filtered_removePolicy)
next
  case (RemovePolicies sec pt rules)
  then show ?thesis
    by (simp add: is_loadFilteredPolicy_def split_beta filtered_removePolicies)
next
  case (RemoveFilteredPolicy sec pt fieldIndex fieldValues)
  then show ?thesis
    by (simp add: is_loadFilteredPolicy_def split_beta filtered_removeFilteredPolicy)
next
  case IsFiltered
  then show ?thesis
    by (simp add: is_loadFilteredPolicy_def)
qed

lemma run_Cons:
  "run helper (x # xs) a =
     (fst (perform helper x a) # fst (run helper xs (snd (perform helper x a))),
      snd (run helper xs (snd (perform helper x a))))"
  by (simp add: split_beta)

lemma ex_less_Cons:
  "(\<exists>i. i < length (x # xs) \<and> P ((x # xs) ! i) \<and> (c # cs) ! i)
     = ((P x \<and> c) \<or> (\<exists>i. i < length xs \<and> P (xs ! i) \<and> cs ! i))"
  (is "?L = ?R")
proof
  assume ?L
  then obtain i where i: "i < length (x # xs)" "P ((x # xs) ! i)" "(c # cs) ! i"
    by blast
  show ?R
  proof (cases i)
    case 0
    then show ?thesis using i by simp
  next
    case (Suc j)
    then have "j < length xs \<and> P (xs ! j) \<and> cs ! j"
      using i by simp
    then show ?thesis by blast
  qed
next
  assume ?R
  then show ?L
  proof
    assume "P x \<and> c"
    then have "0 < length (x # xs) \<and> P ((x # xs) ! 0) \<and> (c # cs) ! 0"
      by simp
    then show ?L by blast
  next
    assume "\<exists>i. i < length xs \<and> P (xs ! i) \<and> cs ! i"
    then obtain j where "j < length xs \<and> P (xs ! j) \<and> cs ! j"
      by blast
    then have "Suc j < length (x # xs) \<and> P ((x # xs) ! Suc j) \<and> (c # cs) ! Suc j"
      by simp
    then show ?L by blast
  qed
qed

lemma filtered_run:
  "filtered (snd (run helper ops a))
     = (filtered a \<or> (\<exists>i. i < length ops \<and> is_loadFilteredPolicy (ops ! i) \<and> fst (run helper ops a) ! i))"
proof (induction ops arbitrary: a)
  case Nil
  show ?case by simp
next
  case (Cons x xs)
  define c where "c = fst (perform helper x a)"
  define a' where "a' = snd (perform helper x a)"
  define cs where "cs = fst (run helper xs a')"
  have r: "run helper (x # xs) a = (c # cs, snd (run helper xs a'))"
    unfolding c_def a'_def cs_def by (rule run_Cons)
  have step: "filtered a' = (filtered a \<or> (is_loadFilteredPolicy x \<and> c))"
    unfolding a'_def c_def by (rule filtered_perform)
  have rest: "filtered (snd (run helper xs a'))
      = (filtered a' \<or> (\<exists>i. i < length xs \<and> is_loadFilteredPolicy (xs ! i) \<and> cs ! i))"
    unfolding cs_def by (rule Cons.IH)
  have "filtered (snd (run helper (x # xs) a))
      = (filtered a \<or> ((is_loadFilteredPolicy x \<and> c) \<or>
           (\<exists>i. i < length xs \<and> is_loadFilteredPolicy (xs ! i) \<and> cs ! i)))"
    unfolding r snd_conv rest step by blast
  then show ?case
    unfolding r fst_conv ex_less_Cons [of x xs is_loadFilteredPolicy c cs] .
qed

lemma field_condition_holds:
  "list_all (\<lambda>c. holds c r) (field_condition k v)
     = (0 \<le> k \<and> k \<le> 5 \<longrightarrow> vcol (nat k) r = Some v)"
  by (simp add: field_condition_def vcol_def colval_def)

lemma field_condition_Nil: "(field_condition k v = []) = (\<not> (0 \<le> k \<and> k \<le> 5))"
  by (auto simp: field_condition_def)

lemma loop_holds:
  "list_all (\<lambda>c. holds c r) (removeFilteredPolicy_loop fieldIndex fieldValues i conditions)
     = (list_all (\<lambda>c. holds c r) conditions \<and>
        (\<forall>j. i \<le> j \<and> j < length fieldValues \<and> fieldValues ! j \<noteq> [] \<and>
             0 \<le> fieldIndex + int j \<and> fieldIndex + int j \<le> 5 \<longrightarrow>
             vcol (nat (fieldIndex + int j)) r = Some (fieldValues ! j)))"
proof (induction fieldIndex fieldValues i conditions rule: removeFilteredPolicy_loop.induct)
  case (1 fieldIndex fieldValues i conditions)
  show ?case
  proof (cases "i < length fieldValues")
    case False
    then show ?thesis
      by (subst removeFilteredPolicy_loop.simps) auto
  next
    case True
    define val where "val = fieldValues ! i"
    define conditions' where
      "conditions' = (if val \<noteq> [] then conditions @ field_condition (fieldIndex + int i) val
                      else conditions)"
    have unfold: "removeFilteredPolicy_loop fieldIndex fieldValues i conditions
        = removeFilteredPolicy_loop fieldIndex fieldValues (i + 1) conditions'"
      using True
      by (subst removeFilteredPolicy_loop.simps) (simp add: conditions'_def val_def Let_def)
    have IH: "list_all (\<lambda>c. holds c r)
          (removeFilteredPolicy_loop fieldIndex fieldValues (i + 1) conditions')
        = (list_all (\<lambda>c. holds c r) conditions' \<and>
           (\<forall>j. i + 1 \<le> j \<and> j < length fieldValues \<and> fieldValues ! j \<noteq> [] \<and>
                0 \<le> fieldIndex + int j \<and> fieldIndex + int j \<le> 5 \<longrightarrow>
                vcol (nat (fieldIndex + int j)) r = Some (fieldValues ! j)))"
      unfolding conditions'_def val_def by (rule "1.IH" [OF True refl refl])
    have here: "list_all (\<lambda>c. holds c r) conditions'
        = (list_all (\<lambda>c. holds c r) conditions \<and>
           (fieldValues ! i \<noteq> [] \<and> 0 \<le> fieldIndex + int i \<and> fieldIndex + int i \<le> 5 \<longrightarrow>
              vcol (nat (fieldIndex + int i)) r = Some (fieldValues ! i)))"
      by (simp add: conditions'_def val_def field_condition_holds)
    have range: "(\<forall>j. i \<le> j \<and> j < length fieldValues \<and> fieldValues ! j \<noteq> [] \<and>
             0 \<le> fieldIndex + int j \<and> fieldIndex + int j \<le> 5 \<longrightarrow>
             vcol (nat (fieldIndex + int j)) r = Some (fieldValues ! j))
        = ((fieldValues ! i \<noteq> [] \<and> 0 \<le> fieldIndex + int i \<and> fieldIndex + int i \<le> 5 \<longrightarrow>
              vcol (nat (fieldIndex + int i)) r = Some (fieldValues ! i)) \<and>
           (\<forall>j. i + 1 \<le> j \<and> j < length fieldValues \<and> fieldValues ! j \<noteq> [] \<and>
                0 \<le> fieldIndex + int j \<and> fieldIndex + int j \<le> 5 \<longrightarrow>
                vcol (nat (fieldIndex + int j)) r = Some (fieldValues ! j)))"
      (is "(\<forall>j. ?P j) = (?Q \<and> (\<forall>j. ?R j))")
    proof
      assume all: "\<forall>j. ?P j"
      have "?Q" using all [rule_format, of i] True by simp
      moreover have "?R j" for j using all [rule_format, of j] by simp
      ultimately show "?Q \<and> (\<forall>j. ?R j)" by blast
    next
      assume qr: "?Q \<and> (\<forall>j. ?R j)"
      show "\<forall>j. ?P j"
      proof
        fix j
        show "?P j"
        proof (cases "j = i")
          case True
          then show ?thesis using qr by blast
        next
          case False
          then have "i \<le> j \<longrightarrow> i + 1 \<le> j" by simp
          then show ?thesis using qr by blast
        qed
      qed
    qed
    show ?thesis
      unfolding unfold IH here range by blast
  qed
qed

lemma loop_Nil:
  "(removeFilteredPolicy_loop fieldIndex fieldValues i conditions = [])
     = (conditions = [] \<and>
        \<not> (\<exists>j. i \<le> j \<and> j < length fieldValues \<and> fieldValues ! j \<noteq> [] \<and>
             0 \<le> fieldIndex + int j \<and> fieldIndex + int j \<le> 5))"
proof (induction fieldIndex fieldValues i conditions rule: removeFilteredPolicy_loop.induct)
  case (1 fieldIndex fieldValues i conditions)
  show ?case
  proof (cases "i < length fieldValues")
    case False
    then show ?thesis
      by (subst removeFilteredPolicy_loop.simps) auto
  next
    case True
    define val where "val = fieldValues ! i"
    define conditions' where
      "conditions' = (if val \<noteq> [] then conditions @ field_condition (fieldIndex + int i) val
                      else conditions)"
    have unfold: "removeFilteredPolicy_loop fieldIndex fieldValues i conditions
        = removeFilteredPolicy_loop fieldIndex fieldValues (i + 1) conditions'"
      using True
      by (subst removeFilteredPolicy_loop.simps) (simp add: conditions'_def val_def Let_def)
    have IH: "(removeFilteredPolicy_loop fieldIndex fieldValues (i + 1) conditions' = [])
        = (conditions' = [] \<and>
           \<not> (\<exists>j. i + 1 \<le> j \<and> j < length fieldValues \<and> fieldValues ! j \<noteq> [] \<and>
                0 \<le> fieldIndex + int j \<and> fieldIndex + int j \<le> 5))"
      unfolding conditions'_def val_def by (rule "1.IH" [OF True refl refl])
    have here: "(conditions' = [])
        = (conditions = [] \<and>
           \<not> (fieldValues ! i \<noteq> [] \<and> 0 \<le> fieldIndex + int i \<and> fieldIndex + int i \<le> 5))"
      by (simp add: conditions'_def val_def field_condition_Nil)
    have range: "(\<exists>j. i \<le> j \<and> j < length fieldValues \<and> fieldValues ! j \<noteq> [] \<and>
             0 \<le> fieldIndex + int j \<and> fieldIndex + int j \<le> 5)
        = ((fieldValues ! i \<noteq> [] \<and> 0 \<le> fieldIndex + int i \<and> fieldIndex + int i \<le> 5) \<or>
           (\<exists>j. i + 1 \<le> j \<and> j < length fieldValues \<and> fieldValues ! j \<noteq> [] \<and>
                0 \<le> fieldIndex + int j \<and> fieldIndex + int j \<le> 5))"
      (is "(\<exists>j. ?P j) = (?Q \<or> (\<exists>j. ?R j))")
    proof
      assume "\<exists>j. ?P j"
      then obtain j where j: "?P j" by blast
      show "?Q \<or> (\<exists>j. ?R j)"
      proof (cases "j = i")
        case True
        then show ?thesis using j by blast
      next
        case False
        then have "i + 1 \<le> j" using j by simp
        then have "?R j" using j by blast
        then show ?thesis by blast
      qed
    next
      assume "?Q \<or> (\<exists>j. ?R j)"
      then show "\<exists>j. ?P j"
      proof
        assume ?Q
        then have "?P i" using True by simp
        then show ?thesis by blast
      next
        assume "\<exists>j. ?R j"
        then obtain j where "?R j" by blast
        then have "?P j" by simp
        then show ?thesis by blast
      qed
    qed
    show ?thesis
      unfolding unfold IH here range by blast
  qed
qed

lemma removeFilteredPolicy_conditions_Nil:
  "(removeFilteredPolicy_loop fieldIndex fieldValues 0 (if pt \<noteq> [] then [Eq Col_ptype pt] else []) = [])
     = (\<not> removeFilteredPolicy_constrains pt fieldIndex fieldValues)"
  unfolding loop_Nil removeFilteredPolicy_constrains_def by simp

lemma removeFilteredPolicy_conditions_hold:
  "list_all (\<lambda>c. holds c r)
     (removeFilteredPolicy_loop fieldIndex fieldValues 0 (if pt \<noteq> [] then [Eq Col_ptype pt] else []))
     = removeFilteredPolicy_predicate pt fieldIndex fieldValues r"
  unfolding loop_holds removeFilteredPolicy_predicate_def by (simp add: colval_def)

lemma matches_and_sql:
  "matches (and_sql conditions) r = list_all (\<lambda>c. holds c r) conditions"
  by (simp add: matches_def and_sql_def)





lemma all_below_6:
  "(\<forall>i. i < n \<and> i < 6 \<longrightarrow> P i)
     = ((0 < n \<longrightarrow> P 0) \<and> (1 < n \<longrightarrow> P 1) \<and> (2 < n \<longrightarrow> P 2) \<and>
        (3 < n \<longrightarrow> P 3) \<and> (4 < n \<longrightarrow> P 4) \<and> (5 < n \<longrightarrow> P (5::nat)))"
  (is "?L = ?R")
proof
  assume ?L
  then show ?R by simp
next
  assume r: ?R
  show ?L
  proof (intro allI impI)
    fix i :: nat
    assume "i < n \<and> i < 6"
    then have "i < n" and "i = 0 \<or> i = 1 \<or> i = 2 \<or> i = 3 \<or> i = 4 \<or> i = 5"
      by auto
    then show "P i" using r by auto
  qed
qed

lemma updatePolicy_conditions_hold:
  "list_all (\<lambda>c. holds c r) (updatePolicy_conditions pt (savePolicyLine pt rule))
     = (ptype r = Some pt \<and> (\<forall>i. i < length rule \<and> i < 6 \<longrightarrow> vcol i r = Some (rule ! i)))"
  unfolding all_below_6
  by (simp add: updatePolicy_conditions_def savePolicyLine_def colval_def vcol_def)

lemma removePolicy_conditions_hold:
  "list_all (\<lambda>c. holds c r) (removePolicy_conditions pt (savePolicyLine pt rule))
     = (ptype r = Some pt \<and> (\<forall>i. i < length rule \<and> i < 6 \<longrightarrow> vcol i r = Some (rule ! i)))"
  unfolding all_below_6
  by (simp add: removePolicy_conditions_def savePolicyLine_def colval_def vcol_def)

lemma rule_predicate_short:
  "length rule \<le> 6 \<Longrightarrow>
     rule_predicate pt rule r
       = (ptype r = Some pt \<and> (\<forall>i. i < length rule \<and> i < 6 \<longrightarrow> vcol i r = Some (rule ! i)))"
  unfolding rule_predicate_def by auto

lemma assign_stored: "assign line r = stored (id_col r) line"
  by (simp add: assign_def stored_def)

lemma line_eta:
  "\<lparr> ptype = ptype line, v0 = v0 line, v1 = v1 line, v2 = v2 line, v3 = v3 line,
     v4 = v4 line, v5 = v5 line \<rparr> = (line :: NewCasbinRule)"
  by (cases line) simp

lemma updatePolicy_unfold:
  "updatePolicy sec pt oldRule newRule a =
     (case update_set (savePolicyLine pt newRule)
             (and_sql (updatePolicy_conditions pt (savePolicyLine pt oldRule))) (db a) of
        (r, d) \<Rightarrow> (r, a\<lparr>db := d\<rparr>))"
  by (simp add: updatePolicy_def Let_def line_eta)

lemma removePolicy_unfold:
  "removePolicy sec pt rule a =
     (case delete_from (and_sql (removePolicy_conditions pt (savePolicyLine pt rule))) (db a) of
        (r, d) \<Rightarrow> (r, a\<lparr>db := d\<rparr>))"
  by (simp add: removePolicy_def Let_def)

lemma rule_predicate_3:
  "rule_predicate pt [a, b, c] r
     = (ptype r = Some pt \<and> v0 r = Some a \<and> v1 r = Some b \<and> v2 r = Some c)"
  by (simp add: rule_predicate_short all_below_6) (simp add: vcol_def)

lemma rule_predicate_1:
  "rule_predicate pt [a] r = (ptype r = Some pt \<and> v0 r = Some a)"
  by (simp add: rule_predicate_short all_below_6) (simp add: vcol_def)

lemma updatePolicy_conditions_list:
  "updatePolicy_conditions pt (savePolicyLine pt rule)
     = Eq Col_ptype pt # map (\<lambda>i. Eq (v_column i) (rule ! i)) [0..<min (length rule) 6]"
proof -
  have "length rule = 0 \<or> length rule = 1 \<or> length rule = 2 \<or> length rule = 3 \<or>
        length rule = 4 \<or> length rule = 5 \<or> 6 \<le> length rule"
    by arith
  then show ?thesis
    by (elim disjE)
       (auto simp: updatePolicy_conditions_def savePolicyLine_def v_column_def min_def
          upt_rec eval_nat_numeral)
qed

lemma removePolicy_conditions_eq:
  "removePolicy_conditions pt line = updatePolicy_conditions pt line"
  by (simp add: removePolicy_conditions_def updatePolicy_conditions_def)

lemma removePolicy_ok:
  assumes "\<not> fails (db a)"
  shows "removePolicy sec pt rule a =
     (Returned (),
      a\<lparr>db := issue (Delete (and_sql (removePolicy_conditions pt (savePolicyLine pt rule))))
         ((db a)\<lparr> rows := filter (\<lambda>r. \<not> (ptype r = Some pt \<and>
              (\<forall>i. i < length rule \<and> i < 6 \<longrightarrow> vcol i r = Some (rule ! i)))) (rows (db a)) \<rparr>)\<rparr>)"
  unfolding removePolicy_unfold
  using assms by (simp add: delete_from_ok matches_and_sql removePolicy_conditions_hold)

lemma log_removePolicy:
  "log (db (snd (removePolicy sec pt rule a)))
     = log (db a) @ [Delete (and_sql (removePolicy_conditions pt (savePolicyLine pt rule)))]"
  by (simp add: removePolicy_unfold delete_from_def issue_def)

lemma log_updatePolicy:
  "log (db (snd (updatePolicy sec pt oldRule newRule a)))
     = log (db a) @ [Update (savePolicyLine pt newRule)
                        (and_sql (updatePolicy_conditions pt (savePolicyLine pt oldRule)))]"
  by (simp add: updatePolicy_unfold update_set_def issue_def)

lemma family_lines_rules:
  "family_lines astMap = map (\<lambda>(pt, rule). savePolicyLine pt rule) (family_rules astMap)"
proof (cases astMap)
  case None
  then show ?thesis by (simp add: family_lines_def family_rules_def)
next
  case (Some entries)
  have "concat (map (\<lambda>(pt, ast). map (savePolicyLine pt) (policy ast)) entries)
      = map (\<lambda>(pt, rule). savePolicyLine pt rule)
          (concat (map (\<lambda>(pt, ast). map (\<lambda>rule. (pt, rule)) (policy ast)) entries))"
    by (induction entries) (auto simp: comp_def)
  then show ?thesis using Some by (simp add: family_lines_def family_rules_def)
qed

lemma savePolicy_lines:
  "family_lines (model m ''p'') @ family_lines (model m ''g'')
     = map (\<lambda>(pt, rule). savePolicyLine pt rule) (model_rules m)"
  by (simp add: family_lines_rules model_rules_def)

lemma savePolicy_unfold:
  "savePolicy m a =
     (case delete_from None (db a) of
        (Threw e, d) \<Rightarrow> (Threw e, a\<lparr>db := d\<rparr>)
      | (Returned u, d) \<Rightarrow>
          (if model_rules m \<noteq> []
           then (case insert_values (map (\<lambda>(pt, rule). savePolicyLine pt rule) (model_rules m)) d of
                   (Threw e, d') \<Rightarrow> (Threw e, a\<lparr>db := d'\<rparr>)
                 | (Returned u', d') \<Rightarrow> (Returned True, a\<lparr>db := d'\<rparr>))
           else (Returned True, a\<lparr>db := d\<rparr>)))"
  unfolding savePolicy_def savePolicy_lines Let_def
  by (simp split: prod.splits outcome.splits)

lemma savePolicy_returns_true:
  "fst (savePolicy m a) = Returned b \<Longrightarrow> b"
  unfolding savePolicy_unfold
  by (auto split: prod.splits outcome.splits if_splits)













lemma nth_stored_rows:
  assumes "k < length lines"
  shows "map2 stored [n ..< n + length lines] lines ! k = stored (n + k) (lines ! k)"
  using assms by simp

lemma ptype_stored: "ptype (stored i line) = ptype line"
  by (simp add: stored_def)

lemma vcol_stored: "vcol i (stored j line) = vcol i line"
  by (simp add: vcol_def stored_def)

lemma id_col_stored: "id_col (stored i line) = i"
  by (simp add: stored_def)

section \<open>The properties\<close>

subsection \<open>C1\<close>

text \<open>
  C1 at a tuple with an empty field. \<^verbatim>\<open>savePolicyLine\<close> stores the three fields of
  \<^verbatim>\<open>['alice', '', 'read']\<close>, the empty one as the empty string; after
  \<^verbatim>\<open>addPolicy\<close> on the empty table, \<^verbatim>\<open>loadPolicy\<close> hands the line parser a line
  with two fields, the very line it is handed for \<^verbatim>\<open>['alice', 'read']\<close>. So no line
  parser gives the original tuple back. A field that holds a double quote, a comma, a
  space and a double quote collides with a two-field tuple in the same way.
\<close>

theorem roundtrip_loses_empty_field:
  "savePolicyLine ''p'' [''alice'', '''', ''read'']
     = \<lparr> ptype = Some ''p'', v0 = Some ''alice'', v1 = Some '''', v2 = Some ''read'',
         v3 = None, v4 = None, v5 = None \<rparr> \<and>
   fst (snd (loadPolicy collect []
      (snd (addPolicy ''p'' ''p'' [''alice'', '''', ''read''] (newAdapter empty_db)))))
     = [''p, '' @ CHR 0x22 # ''alice'' @ CHR 0x22 # '', '' @ CHR 0x22 # ''read'' @ [CHR 0x22]] \<and>
   fst (snd (loadPolicy collect []
      (snd (addPolicy ''p'' ''p'' [''alice'', ''read''] (newAdapter empty_db)))))
     = [''p, '' @ CHR 0x22 # ''alice'' @ CHR 0x22 # '', '' @ CHR 0x22 # ''read'' @ [CHR 0x22]] \<and>
   fst (snd (loadPolicy collect []
      (snd (addPolicy ''p'' ''p'' [''a'' @ CHR 0x22 # '', '' @ CHR 0x22 # ''b'']
         (newAdapter empty_db)))))
     = fst (snd (loadPolicy collect []
      (snd (addPolicy ''p'' ''p'' [''a'', ''b''] (newAdapter empty_db)))))"
  by (simp add: savePolicyLine_def loadPolicy_def addPolicy_def newAdapter_def empty_db_def
      collect_def select_from_def insert_values_def fails_def issue_def matches_def stored_def
      loadPolicyLine_def loadPolicyLine_result_def loadPolicyLine_values_def truthy_def
      to_string_def quote_def)

subsection \<open>C2\<close>

text \<open>
  C2. The flag is false on a new adapter; a \<^verbatim>\<open>loadFilteredPolicy\<close> that returns leaves
  it true, whatever the filter and the rows; no call turns a true flag false;
  \<^verbatim>\<open>isFiltered\<close> changes nothing. So after any sequence of calls on a new adapter the
  flag is true exactly when some \<^verbatim>\<open>loadFilteredPolicy\<close> of the sequence returned.
\<close>

theorem isFiltered_iff_loadFilteredPolicy_completed:
  "isFiltered (newAdapter d) = False \<and>
   (completed (fst (loadFilteredPolicy helper' m fltr a)) \<longrightarrow>
      isFiltered (snd (snd (loadFilteredPolicy helper' m fltr a)))) \<and>
   (isFiltered a \<longrightarrow> isFiltered (snd (perform helper x a))) \<and>
   perform helper IsFiltered a = (True, a) \<and>
   isFiltered (snd (run helper ops (newAdapter d)))
     = (\<exists>i. i < length ops \<and> is_loadFilteredPolicy (ops ! i) \<and> fst (run helper ops (newAdapter d)) ! i)"
proof -
  have "filtered (newAdapter d) = False"
    by (simp add: newAdapter_def)
  then have "isFiltered (snd (run helper ops (newAdapter d)))
     = (\<exists>i. i < length ops \<and> is_loadFilteredPolicy (ops ! i) \<and> fst (run helper ops (newAdapter d)) ! i)"
    unfolding isFiltered_def filtered_run [of helper ops "newAdapter d"] by simp
  moreover have "isFiltered a \<longrightarrow> isFiltered (snd (perform helper x a))"
    unfolding isFiltered_def filtered_perform [of helper x a] by simp
  moreover have "completed (fst (loadFilteredPolicy helper' m fltr a)) \<longrightarrow>
      isFiltered (snd (snd (loadFilteredPolicy helper' m fltr a)))"
    unfolding isFiltered_def filtered_loadFilteredPolicy [of helper' m fltr a] by simp
  moreover have "isFiltered (newAdapter d) = False"
    by (simp add: isFiltered_def newAdapter_def)
  moreover have "perform helper IsFiltered a = (True, a)"
    by simp
  ultimately show ?thesis
    by blast
qed

text \<open>
  A filtered load with the empty filter on the empty table, then a load and a look at
  the flag: the filtered load returns, and the flag ends true.
\<close>

theorem isFiltered_iff_loadFilteredPolicy_completed_witness:
  "isFiltered (snd (run accept_line
      [LoadFilteredPolicy no_rules no_filter, LoadPolicy no_rules, IsFiltered]
      (newAdapter empty_db))) \<and>
   isFiltered (snd (snd (loadFilteredPolicy accept_line no_rules no_filter (newAdapter empty_db))))"
proof -
  let ?ops = "[LoadFilteredPolicy no_rules no_filter, LoadPolicy no_rules, IsFiltered]"
  note t = isFiltered_iff_loadFilteredPolicy_completed
    [of empty_db accept_line no_rules no_filter "newAdapter empty_db" accept_line IsFiltered ?ops]
  have c: "completed (fst (loadFilteredPolicy accept_line no_rules no_filter (newAdapter empty_db)))"
    by (simp add: loadFilteredPolicy_def loadFilteredPolicy_conditions_def no_filter_def
        select_from_def fails_def newAdapter_def empty_db_def completed_def)
  have "0 < length ?ops \<and> is_loadFilteredPolicy (?ops ! 0) \<and>
        fst (run accept_line ?ops (newAdapter empty_db)) ! 0"
    using c
    by (simp add: is_loadFilteredPolicy_def split_beta)
  then have "\<exists>i. i < length ?ops \<and> is_loadFilteredPolicy (?ops ! i) \<and>
        fst (run accept_line ?ops (newAdapter empty_db)) ! i"
    by (rule exI)
  then show ?thesis
    using t c by blast
qed

subsection \<open>C3\<close>

text \<open>
  C3. When \<^verbatim>\<open>ptype\<close> is empty and every supplied value is empty or falls on an
  index outside 0..5 (in particular when no value is supplied),
  \<^verbatim>\<open>removeFilteredPolicy\<close> returns without touching the adapter: no statement is
  issued and every row stays, whatever the table and whether or not the database is
  failing.
\<close>

theorem removeFilteredPolicy_empty_predicate_noop:
  assumes "pt = []"
    and "\<forall>i<length fieldValues.
           fieldValues ! i = [] \<or> fieldIndex + int i < 0 \<or> 5 < fieldIndex + int i"
  shows "removeFilteredPolicy sec pt fieldIndex fieldValues a = (Returned (), a) \<and>
         log (db (snd (removeFilteredPolicy sec pt fieldIndex fieldValues a))) = log (db a) \<and>
         rows (db (snd (removeFilteredPolicy sec pt fieldIndex fieldValues a))) = rows (db a)"
proof -
  have "\<not> removeFilteredPolicy_constrains pt fieldIndex fieldValues"
    using assms unfolding removeFilteredPolicy_constrains_def by auto
  then have "removeFilteredPolicy_loop fieldIndex fieldValues 0
      (if pt \<noteq> [] then [Eq Col_ptype pt] else []) = []"
    unfolding removeFilteredPolicy_conditions_Nil .
  then have "removeFilteredPolicy sec pt fieldIndex fieldValues a = (Returned (), a)"
    by (simp add: removeFilteredPolicy_def)
  then show ?thesis by simp
qed

text \<open>
  \<^verbatim>\<open>removeFilteredPolicy('', '', 0)\<close> on the test table, and a call whose values are
  an empty string and a value at index 8: the five rows stay.
\<close>

theorem removeFilteredPolicy_empty_predicate_noop_witness:
  "removeFilteredPolicy '''' '''' 0 [] (newAdapter rbac_db) = (Returned (), newAdapter rbac_db) \<and>
   removeFilteredPolicy '''' '''' 7 ['''', ''x''] (newAdapter rbac_db) = (Returned (), newAdapter rbac_db) \<and>
   length (rows (db (snd (removeFilteredPolicy '''' '''' 0 [] (newAdapter rbac_db))))) = 5"
proof -
  have h: "\<forall>i<length ['''', ''x'']. ['''', ''x''] ! i = [] \<or> 7 + int i < 0 \<or> 5 < 7 + int i"
    by simp
  have "removeFilteredPolicy '''' '''' 0 [] (newAdapter rbac_db) = (Returned (), newAdapter rbac_db)"
    using removeFilteredPolicy_empty_predicate_noop [of "''''" "[]" 0 "''''" "newAdapter rbac_db"]
    by simp
  moreover have "removeFilteredPolicy '''' '''' 7 ['''', ''x''] (newAdapter rbac_db)
      = (Returned (), newAdapter rbac_db)"
    using removeFilteredPolicy_empty_predicate_noop [OF refl h, of "''''" "newAdapter rbac_db"]
    by simp
  ultimately show ?thesis
    by (simp add: newAdapter_def rbac_db_def)
qed

subsection \<open>C4\<close>

text \<open>
  C4. For an old tuple of at most six fields and an update statement that succeeds,
  \<^verbatim>\<open>updatePolicy\<close> returns without error; the rows it changes are exactly those whose
  \<^verbatim>\<open>ptype\<close> is the given one and whose \<^verbatim>\<open>v<i>\<close> is the old tuple's field \<open>i\<close> for
  every \<open>i\<close> below its length; each of them keeps its key and gets \<^verbatim>\<open>ptype\<close> and
  \<^verbatim>\<open>v0..v5\<close> of the new tuple's encoding (NULL from the new tuple's length on); when no
  row matches, no row changes.
\<close>

theorem updatePolicy_overwrites_matching:
  assumes "length oldRule \<le> 6" and "\<not> fails (db a)"
  shows "fst (updatePolicy sec pt oldRule newRule a) = Returned () \<and>
         rows (db (snd (updatePolicy sec pt oldRule newRule a)))
           = map (\<lambda>r. if rule_predicate pt oldRule r
                       then stored (id_col r) (savePolicyLine pt newRule) else r)
               (rows (db a)) \<and>
         ptype (savePolicyLine pt newRule) = Some pt \<and>
         (\<forall>i. i < 6 \<longrightarrow> vcol i (savePolicyLine pt newRule)
                  = (if i < length newRule then Some (newRule ! i) else None)) \<and>
         ((\<forall>r \<in> set (rows (db a)). \<not> rule_predicate pt oldRule r) \<longrightarrow>
            rows (db (snd (updatePolicy sec pt oldRule newRule a))) = rows (db a))"
proof -
  define w where "w = and_sql (updatePolicy_conditions pt (savePolicyLine pt oldRule))"
  have m: "matches w r = rule_predicate pt oldRule r" for r :: CasbinRule
    unfolding w_def matches_and_sql updatePolicy_conditions_hold
      rule_predicate_short [OF assms(1)] ..
  have u: "updatePolicy sec pt oldRule newRule a =
      (Returned (),
       a\<lparr>db := issue (Update (savePolicyLine pt newRule) w)
          ((db a)\<lparr> rows := map (\<lambda>r. if rule_predicate pt oldRule r
                        then stored (id_col r) (savePolicyLine pt newRule) else r)
               (rows (db a)) \<rparr>)\<rparr>)"
    unfolding updatePolicy_unfold w_def [symmetric]
    using assms(2) by (simp add: update_set_ok m assign_stored cong: if_cong)
  have rws: "rows (db (snd (updatePolicy sec pt oldRule newRule a)))
           = map (\<lambda>r. if rule_predicate pt oldRule r
                       then stored (id_col r) (savePolicyLine pt newRule) else r)
               (rows (db a))"
    unfolding u by (simp add: rows_issue)
  have none: "rows (db (snd (updatePolicy sec pt oldRule newRule a))) = rows (db a)"
    if "\<forall>r \<in> set (rows (db a)). \<not> rule_predicate pt oldRule r"
    unfolding rws using that by (simp add: map_idI)
  have enc: "\<forall>i. i < 6 \<longrightarrow> vcol i (savePolicyLine pt newRule)
                  = (if i < length newRule then Some (newRule ! i) else None)"
    by (simp add: vcol_savePolicyLine)
  have ret: "fst (updatePolicy sec pt oldRule newRule a) = Returned ()"
    unfolding u by simp
  have tag: "ptype (savePolicyLine pt newRule) = Some pt"
    by (rule ptype_savePolicyLine)
  show ?thesis
    using ret rws tag enc none by blast
qed

text \<open>
  The update of the repository's tests changes the first row only; an update of a rule
  the table does not hold changes nothing and returns.
\<close>

theorem updatePolicy_overwrites_matching_witness:
  "rows (db (snd (updatePolicy ''p'' ''p'' [''alice'', ''data1'', ''read'']
        [''alice'', ''data1'', ''write''] (newAdapter rbac_db))))
     = [stored 1 (savePolicyLine ''p'' [''alice'', ''data1'', ''write'']),
        stored 2 (savePolicyLine ''p'' [''bob'', ''data2'', ''write'']),
        stored 3 (savePolicyLine ''p'' [''data2_admin'', ''data2'', ''read'']),
        stored 4 (savePolicyLine ''p'' [''data2_admin'', ''data2'', ''write'']),
        stored 5 (savePolicyLine ''g'' [''alice'', ''data2_admin''])] \<and>
   fst (updatePolicy ''p'' ''p'' [''carol''] [''dave''] (newAdapter rbac_db)) = Returned () \<and>
   rows (db (snd (updatePolicy ''p'' ''p'' [''carol''] [''dave''] (newAdapter rbac_db))))
     = rows rbac_db"
proof -
  have nf: "\<not> fails (db (newAdapter rbac_db))"
    by (simp add: fails_def newAdapter_def rbac_db_def)
  have rws: "rows (db (newAdapter rbac_db)) = rows rbac_db"
    by (simp add: newAdapter_def)
  have len: "length [''alice'', ''data1'', ''read''] \<le> 6"
    by simp
  have one: "rows (db (snd (updatePolicy ''p'' ''p'' [''alice'', ''data1'', ''read'']
        [''alice'', ''data1'', ''write''] (newAdapter rbac_db))))
     = [stored 1 (savePolicyLine ''p'' [''alice'', ''data1'', ''write'']),
        stored 2 (savePolicyLine ''p'' [''bob'', ''data2'', ''write'']),
        stored 3 (savePolicyLine ''p'' [''data2_admin'', ''data2'', ''read'']),
        stored 4 (savePolicyLine ''p'' [''data2_admin'', ''data2'', ''write'']),
        stored 5 (savePolicyLine ''g'' [''alice'', ''data2_admin''])]"
    using updatePolicy_overwrites_matching [OF len nf, of "''p''" "''p''" "[''alice'', ''data1'', ''write'']"]
    unfolding rws rule_predicate_3
    by (simp add: rbac_db_def) (simp add: stored_def savePolicyLine_def)
  have len1: "length [''carol''] \<le> 6"
    by simp
  have nomatch: "\<forall>r \<in> set (rows rbac_db). \<not> rule_predicate ''p'' [''carol''] r"
    unfolding rule_predicate_1 by (simp add: rbac_db_def stored_def savePolicyLine_def)
  have two: "fst (updatePolicy ''p'' ''p'' [''carol''] [''dave''] (newAdapter rbac_db)) = Returned () \<and>
      rows (db (snd (updatePolicy ''p'' ''p'' [''carol''] [''dave''] (newAdapter rbac_db))))
        = rows rbac_db"
    using updatePolicy_overwrites_matching [OF len1 nf, of "''p''" "''p''" "[''dave'']"] nomatch
    unfolding rws by blast
  show ?thesis using one two by blast
qed

subsection \<open>C5\<close>

text \<open>
  C5. Whenever \<^verbatim>\<open>savePolicy\<close> returns, it returns \<^verbatim>\<open>true\<close>. When its statements
  succeed it issues a delete without where clause and then, if the model holds a rule,
  one insert of all the rows, nothing else; the table then holds none of the rows it held
  before and exactly one row per rule tuple of the families \<^verbatim>\<open>p\<close> and \<^verbatim>\<open>g\<close>, in
  the model's order: row \<open>k\<close> has the next key, the policy type of rule \<open>k\<close> and, in
  column \<^verbatim>\<open>v<i>\<close>, field \<open>i\<close> of rule \<open>k\<close>, NULL from the rule's length on. With
  no rule the delete is the only statement.
\<close>

theorem savePolicy_replaces_table:
  "(fst (savePolicy m a) = Returned b \<longrightarrow> b) \<and>
   (\<not> faulty (db a) (length (log (db a))) \<and> \<not> faulty (db a) (Suc (length (log (db a)))) \<longrightarrow>
      fst (savePolicy m a) = Returned True \<and>
      log (db (snd (savePolicy m a)))
        = log (db a) @ Delete None #
            (if model_rules m = [] then []
             else [Insert (map (\<lambda>(pt, rule). savePolicyLine pt rule) (model_rules m))]) \<and>
      rows (db (snd (savePolicy m a)))
        = map2 stored [next_id (db a) ..< next_id (db a) + length (model_rules m)]
            (map (\<lambda>(pt, rule). savePolicyLine pt rule) (model_rules m)) \<and>
      length (rows (db (snd (savePolicy m a)))) = length (model_rules m) \<and>
      (\<forall>k. k < length (model_rules m) \<longrightarrow>
         id_col (rows (db (snd (savePolicy m a))) ! k) = next_id (db a) + k \<and>
         ptype (rows (db (snd (savePolicy m a))) ! k) = Some (fst (model_rules m ! k)) \<and>
         (\<forall>i. i < 6 \<longrightarrow>
            vcol i (rows (db (snd (savePolicy m a))) ! k)
              = (if i < length (snd (model_rules m ! k))
                 then Some (snd (model_rules m ! k) ! i) else None))))"
proof -
  define lines where "lines = map (\<lambda>(pt, rule). savePolicyLine pt rule) (model_rules m)"
  have len: "length lines = length (model_rules m)"
    by (simp add: lines_def)
  have line_k: "lines ! k = savePolicyLine (fst (model_rules m ! k)) (snd (model_rules m ! k))"
    if "k < length (model_rules m)" for k
    using that by (simp add: lines_def split_beta)
  have ok: "fst (savePolicy m a) = Returned True \<and>
      log (db (snd (savePolicy m a)))
        = log (db a) @ Delete None # (if model_rules m = [] then [] else [Insert lines]) \<and>
      rows (db (snd (savePolicy m a)))
        = map2 stored [next_id (db a) ..< next_id (db a) + length lines] lines"
    if f0: "\<not> faulty (db a) (length (log (db a)))"
      and f1: "\<not> faulty (db a) (Suc (length (log (db a))))"
  proof -
    define d where "d = issue (Delete None) ((db a)\<lparr> rows := [] \<rparr>)"
    have nf: "\<not> fails (db a)"
      using f0 by (simp add: fails_def)
    have del: "delete_from None (db a) = (Returned (), d)"
      using nf by (simp add: delete_from_ok matches_def d_def)
    have nf': "\<not> fails d"
      using f1 by (simp add: d_def fails_def issue_def)
    have d_rows: "rows d = []" and d_next: "next_id d = next_id (db a)"
      and d_log: "log d = log (db a) @ [Delete None]"
      by (simp_all add: d_def issue_def)
    show ?thesis
    proof (cases "model_rules m = []")
      case True
      then have "savePolicy m a = (Returned True, a\<lparr>db := d\<rparr>)"
        unfolding savePolicy_unfold del by simp
      then show ?thesis using True d_rows d_log by (simp add: lines_def)
    next
      case False
      have "savePolicy m a =
          (Returned True,
           a\<lparr>db := issue (Insert lines)
              (d\<lparr> rows := rows d @ map2 stored [next_id d ..< next_id d + length lines] lines,
                  next_id := next_id d + length lines \<rparr>)\<rparr>)"
        unfolding savePolicy_unfold del lines_def [symmetric]
        using False nf' by (simp add: insert_values_ok)
      then show ?thesis
        using False d_rows d_log d_next by (simp add: issue_def)
    qed
  qed
  have cols: "id_col (rows (db (snd (savePolicy m a))) ! k) = next_id (db a) + k \<and>
         ptype (rows (db (snd (savePolicy m a))) ! k) = Some (fst (model_rules m ! k)) \<and>
         (\<forall>i. i < 6 \<longrightarrow>
            vcol i (rows (db (snd (savePolicy m a))) ! k)
              = (if i < length (snd (model_rules m ! k))
                 then Some (snd (model_rules m ! k) ! i) else None))"
    if f0: "\<not> faulty (db a) (length (log (db a)))"
      and f1: "\<not> faulty (db a) (Suc (length (log (db a))))"
      and k: "k < length (model_rules m)" for k
  proof -
    have kl: "k < length lines"
      using k len by simp
    have "rows (db (snd (savePolicy m a))) ! k = stored (next_id (db a) + k) (lines ! k)"
      using ok [OF f0 f1] nth_stored_rows [OF kl] by simp
    then have row: "rows (db (snd (savePolicy m a))) ! k
        = stored (next_id (db a) + k)
            (savePolicyLine (fst (model_rules m ! k)) (snd (model_rules m ! k)))"
      using line_k [OF k] by simp
    show ?thesis
      unfolding row by (simp add: id_col_stored ptype_stored vcol_stored vcol_savePolicyLine
          ptype_savePolicyLine)
  qed
  have all: "fst (savePolicy m a) = Returned True \<and>
      log (db (snd (savePolicy m a)))
        = log (db a) @ Delete None #
            (if model_rules m = [] then []
             else [Insert (map (\<lambda>(pt, rule). savePolicyLine pt rule) (model_rules m))]) \<and>
      rows (db (snd (savePolicy m a)))
        = map2 stored [next_id (db a) ..< next_id (db a) + length (model_rules m)]
            (map (\<lambda>(pt, rule). savePolicyLine pt rule) (model_rules m)) \<and>
      length (rows (db (snd (savePolicy m a)))) = length (model_rules m) \<and>
      (\<forall>k. k < length (model_rules m) \<longrightarrow>
         id_col (rows (db (snd (savePolicy m a))) ! k) = next_id (db a) + k \<and>
         ptype (rows (db (snd (savePolicy m a))) ! k) = Some (fst (model_rules m ! k)) \<and>
         (\<forall>i. i < 6 \<longrightarrow>
            vcol i (rows (db (snd (savePolicy m a))) ! k)
              = (if i < length (snd (model_rules m ! k))
                 then Some (snd (model_rules m ! k) ! i) else None)))"
    if f: "\<not> faulty (db a) (length (log (db a))) \<and> \<not> faulty (db a) (Suc (length (log (db a))))"
  proof -
    have f0: "\<not> faulty (db a) (length (log (db a)))"
      and f1: "\<not> faulty (db a) (Suc (length (log (db a))))"
      using f by simp_all
    have o: "fst (savePolicy m a) = Returned True \<and>
      log (db (snd (savePolicy m a)))
        = log (db a) @ Delete None #
            (if model_rules m = [] then []
             else [Insert (map (\<lambda>(pt, rule). savePolicyLine pt rule) (model_rules m))]) \<and>
      rows (db (snd (savePolicy m a)))
        = map2 stored [next_id (db a) ..< next_id (db a) + length (model_rules m)]
            (map (\<lambda>(pt, rule). savePolicyLine pt rule) (model_rules m))"
      using ok [OF f0 f1] unfolding len unfolding lines_def .
    have l: "length (rows (db (snd (savePolicy m a)))) = length (model_rules m)"
      using ok [OF f0 f1] len by simp
    have c: "\<forall>k. k < length (model_rules m) \<longrightarrow>
         id_col (rows (db (snd (savePolicy m a))) ! k) = next_id (db a) + k \<and>
         ptype (rows (db (snd (savePolicy m a))) ! k) = Some (fst (model_rules m ! k)) \<and>
         (\<forall>i. i < 6 \<longrightarrow>
            vcol i (rows (db (snd (savePolicy m a))) ! k)
              = (if i < length (snd (model_rules m ! k))
                 then Some (snd (model_rules m ! k) ! i) else None))"
      using cols [OF f0 f1] by blast
    note o1 = o [THEN conjunct1]
    note o2 = o [THEN conjunct2, THEN conjunct1]
    note o3 = o [THEN conjunct2, THEN conjunct2]
    from o1 o2 o3 l c show ?thesis
      by (intro conjI)
  qed
  have ret: "fst (savePolicy m a) = Returned b \<longrightarrow> b"
    using savePolicy_returns_true [of m a b] by blast
  have all': "\<not> faulty (db a) (length (log (db a))) \<and> \<not> faulty (db a) (Suc (length (log (db a))))
      \<longrightarrow> fst (savePolicy m a) = Returned True \<and>
      log (db (snd (savePolicy m a)))
        = log (db a) @ Delete None #
            (if model_rules m = [] then []
             else [Insert (map (\<lambda>(pt, rule). savePolicyLine pt rule) (model_rules m))]) \<and>
      rows (db (snd (savePolicy m a)))
        = map2 stored [next_id (db a) ..< next_id (db a) + length (model_rules m)]
            (map (\<lambda>(pt, rule). savePolicyLine pt rule) (model_rules m)) \<and>
      length (rows (db (snd (savePolicy m a)))) = length (model_rules m) \<and>
      (\<forall>k. k < length (model_rules m) \<longrightarrow>
         id_col (rows (db (snd (savePolicy m a))) ! k) = next_id (db a) + k \<and>
         ptype (rows (db (snd (savePolicy m a))) ! k) = Some (fst (model_rules m ! k)) \<and>
         (\<forall>i. i < 6 \<longrightarrow>
            vcol i (rows (db (snd (savePolicy m a))) ! k)
              = (if i < length (snd (model_rules m ! k))
                 then Some (snd (model_rules m ! k) ! i) else None)))"
    by (rule impI) (rule all)
  from ret all' show ?thesis
    by (rule conjI)
qed

text \<open>
  Saving the tests' model into the empty table: one delete, one insert of five lines, and
  the five rows column by column; saving a model without rules over the tests' table
  leaves no row and issues the delete only.
\<close>

theorem savePolicy_replaces_table_witness:
  "fst (savePolicy rbac_model (newAdapter empty_db)) = Returned True \<and>
   log (db (snd (savePolicy rbac_model (newAdapter empty_db))))
     = [Delete None,
        Insert
          [\<lparr> ptype = Some ''p'', v0 = Some ''alice'', v1 = Some ''data1'', v2 = Some ''read'',
             v3 = None, v4 = None, v5 = None \<rparr>,
           \<lparr> ptype = Some ''p'', v0 = Some ''bob'', v1 = Some ''data2'', v2 = Some ''write'',
             v3 = None, v4 = None, v5 = None \<rparr>,
           \<lparr> ptype = Some ''p'', v0 = Some ''data2_admin'', v1 = Some ''data2'',
             v2 = Some ''read'', v3 = None, v4 = None, v5 = None \<rparr>,
           \<lparr> ptype = Some ''p'', v0 = Some ''data2_admin'', v1 = Some ''data2'',
             v2 = Some ''write'', v3 = None, v4 = None, v5 = None \<rparr>,
           \<lparr> ptype = Some ''g'', v0 = Some ''alice'', v1 = Some ''data2_admin'', v2 = None,
             v3 = None, v4 = None, v5 = None \<rparr>]] \<and>
   rows (db (snd (savePolicy rbac_model (newAdapter empty_db))))
     = [\<lparr> ptype = Some ''p'', v0 = Some ''alice'', v1 = Some ''data1'', v2 = Some ''read'',
          v3 = None, v4 = None, v5 = None, id_col = 1 \<rparr>,
        \<lparr> ptype = Some ''p'', v0 = Some ''bob'', v1 = Some ''data2'', v2 = Some ''write'',
          v3 = None, v4 = None, v5 = None, id_col = 2 \<rparr>,
        \<lparr> ptype = Some ''p'', v0 = Some ''data2_admin'', v1 = Some ''data2'',
          v2 = Some ''read'', v3 = None, v4 = None, v5 = None, id_col = 3 \<rparr>,
        \<lparr> ptype = Some ''p'', v0 = Some ''data2_admin'', v1 = Some ''data2'',
          v2 = Some ''write'', v3 = None, v4 = None, v5 = None, id_col = 4 \<rparr>,
        \<lparr> ptype = Some ''g'', v0 = Some ''alice'', v1 = Some ''data2_admin'', v2 = None,
          v3 = None, v4 = None, v5 = None, id_col = 5 \<rparr>] \<and>
   fst (savePolicy no_rules (newAdapter rbac_db)) = Returned True \<and>
   log (db (snd (savePolicy no_rules (newAdapter rbac_db)))) = [Delete None] \<and>
   rows (db (snd (savePolicy no_rules (newAdapter rbac_db)))) = []"
proof -
  have mr: "model_rules rbac_model =
      [(''p'', [''alice'', ''data1'', ''read'']), (''p'', [''bob'', ''data2'', ''write'']),
       (''p'', [''data2_admin'', ''data2'', ''read'']),
       (''p'', [''data2_admin'', ''data2'', ''write'']),
       (''g'', [''alice'', ''data2_admin''])]"
    by (simp add: model_rules_def family_rules_def rbac_model_def)
  have mn: "model_rules no_rules = []"
    by (simp add: model_rules_def family_rules_def no_rules_def)
  have f: "\<not> faulty (db (newAdapter empty_db)) (length (log (db (newAdapter empty_db)))) \<and>
      \<not> faulty (db (newAdapter empty_db)) (Suc (length (log (db (newAdapter empty_db)))))"
    by (simp add: newAdapter_def empty_db_def)
  have g: "\<not> faulty (db (newAdapter rbac_db)) (length (log (db (newAdapter rbac_db)))) \<and>
      \<not> faulty (db (newAdapter rbac_db)) (Suc (length (log (db (newAdapter rbac_db)))))"
    by (simp add: newAdapter_def rbac_db_def)
  note s = savePolicy_replaces_table [of rbac_model "newAdapter empty_db" True,
      THEN conjunct2, THEN mp, OF f]
  note n = savePolicy_replaces_table [of no_rules "newAdapter rbac_db" True,
      THEN conjunct2, THEN mp, OF g]
  note s1 = s [THEN conjunct1]
  note s2 = s [THEN conjunct2, THEN conjunct1, unfolded mr]
  note s3 = s [THEN conjunct2, THEN conjunct2, THEN conjunct1, unfolded mr]
  note n1 = n [THEN conjunct1]
  note n2 = n [THEN conjunct2, THEN conjunct1, unfolded mn]
  note n3 = n [THEN conjunct2, THEN conjunct2, THEN conjunct1, unfolded mn]
  have a: "log (db (snd (savePolicy rbac_model (newAdapter empty_db))))
     = [Delete None,
        Insert
          [\<lparr> ptype = Some ''p'', v0 = Some ''alice'', v1 = Some ''data1'', v2 = Some ''read'',
             v3 = None, v4 = None, v5 = None \<rparr>,
           \<lparr> ptype = Some ''p'', v0 = Some ''bob'', v1 = Some ''data2'', v2 = Some ''write'',
             v3 = None, v4 = None, v5 = None \<rparr>,
           \<lparr> ptype = Some ''p'', v0 = Some ''data2_admin'', v1 = Some ''data2'',
             v2 = Some ''read'', v3 = None, v4 = None, v5 = None \<rparr>,
           \<lparr> ptype = Some ''p'', v0 = Some ''data2_admin'', v1 = Some ''data2'',
             v2 = Some ''write'', v3 = None, v4 = None, v5 = None \<rparr>,
           \<lparr> ptype = Some ''g'', v0 = Some ''alice'', v1 = Some ''data2_admin'', v2 = None,
             v3 = None, v4 = None, v5 = None \<rparr>]]"
    unfolding s2 by (simp add: newAdapter_def empty_db_def savePolicyLine_def)
  have b: "rows (db (snd (savePolicy rbac_model (newAdapter empty_db))))
     = [\<lparr> ptype = Some ''p'', v0 = Some ''alice'', v1 = Some ''data1'', v2 = Some ''read'',
          v3 = None, v4 = None, v5 = None, id_col = 1 \<rparr>,
        \<lparr> ptype = Some ''p'', v0 = Some ''bob'', v1 = Some ''data2'', v2 = Some ''write'',
          v3 = None, v4 = None, v5 = None, id_col = 2 \<rparr>,
        \<lparr> ptype = Some ''p'', v0 = Some ''data2_admin'', v1 = Some ''data2'',
          v2 = Some ''read'', v3 = None, v4 = None, v5 = None, id_col = 3 \<rparr>,
        \<lparr> ptype = Some ''p'', v0 = Some ''data2_admin'', v1 = Some ''data2'',
          v2 = Some ''write'', v3 = None, v4 = None, v5 = None, id_col = 4 \<rparr>,
        \<lparr> ptype = Some ''g'', v0 = Some ''alice'', v1 = Some ''data2_admin'', v2 = None,
          v3 = None, v4 = None, v5 = None, id_col = 5 \<rparr>]"
    unfolding s3
    by (simp add: newAdapter_def empty_db_def savePolicyLine_def stored_def upt_rec
        eval_nat_numeral)
  have c: "log (db (snd (savePolicy no_rules (newAdapter rbac_db)))) = [Delete None]"
    unfolding n2 by (simp add: newAdapter_def rbac_db_def)
  have d: "rows (db (snd (savePolicy no_rules (newAdapter rbac_db)))) = []"
    unfolding n3 by simp
  from s1 a b n1 c d show ?thesis
    by (intro conjI)
qed

subsection \<open>C6\<close>

text \<open>
  C6 (as amended). When the delete statement succeeds and at least one constraint is
  present, \<^verbatim>\<open>removeFilteredPolicy\<close> deletes exactly the rows that satisfy the
  conjunction of the constraints and keeps the others in order; when no constraint is
  present it deletes nothing.
\<close>

theorem removeFilteredPolicy_deletes_matching:
  assumes "\<not> fails (db a)"
  shows "fst (removeFilteredPolicy sec pt fieldIndex fieldValues a) = Returned () \<and>
         rows (db (snd (removeFilteredPolicy sec pt fieldIndex fieldValues a)))
           = (if removeFilteredPolicy_constrains pt fieldIndex fieldValues
              then filter (\<lambda>r. \<not> removeFilteredPolicy_predicate pt fieldIndex fieldValues r)
                     (rows (db a))
              else rows (db a))"
proof -
  define conditions where "conditions =
    removeFilteredPolicy_loop fieldIndex fieldValues 0 (if pt \<noteq> [] then [Eq Col_ptype pt] else [])"
  have m: "matches (and_sql conditions) r = removeFilteredPolicy_predicate pt fieldIndex fieldValues r"
    for r :: CasbinRule
    unfolding matches_and_sql conditions_def by (rule removeFilteredPolicy_conditions_hold)
  have e: "(conditions = []) = (\<not> removeFilteredPolicy_constrains pt fieldIndex fieldValues)"
    unfolding conditions_def by (rule removeFilteredPolicy_conditions_Nil)
  have u: "removeFilteredPolicy sec pt fieldIndex fieldValues a =
      (if length conditions > 0
       then (case delete_from (and_sql conditions) (db a) of (r, d) \<Rightarrow> (r, a\<lparr>db := d\<rparr>))
       else (Returned (), a))"
    by (simp add: removeFilteredPolicy_def conditions_def Let_def)
  show ?thesis
  proof (cases "removeFilteredPolicy_constrains pt fieldIndex fieldValues")
    case True
    then have "conditions \<noteq> []" using e by simp
    then show ?thesis
      using True assms by (simp add: u delete_from_ok rows_issue m)
  next
    case False
    then have "conditions = []" using e by simp
    then show ?thesis
      using False by (simp add: u)
  qed
qed

text \<open>
  \<^verbatim>\<open>removeFilteredPolicy('', 'p', 1, 'data2')\<close> on the test table removes the three
  \<^verbatim>\<open>p\<close> rows whose \<^verbatim>\<open>v1\<close> is \<^verbatim>\<open>data2\<close>; the rows with keys 1 and 5 stay.
\<close>

theorem removeFilteredPolicy_deletes_matching_witness:
  "map id_col (rows (db (snd (removeFilteredPolicy '''' ''p'' 1 [''data2''] (newAdapter rbac_db)))))
     = [1, 5]"
proof -
  have nf: "\<not> fails (db (newAdapter rbac_db))"
    by (simp add: fails_def newAdapter_def rbac_db_def)
  have c: "removeFilteredPolicy_constrains ''p'' 1 [''data2'']"
    by (simp add: removeFilteredPolicy_constrains_def)
  have p: "removeFilteredPolicy_predicate ''p'' 1 [''data2''] r
      = (ptype r = Some ''p'' \<and> v1 r = Some ''data2'')" for r :: CasbinRule
    by (simp add: removeFilteredPolicy_predicate_def vcol_def)
  show ?thesis
    using removeFilteredPolicy_deletes_matching [OF nf, of "''''" "''p''" 1 "[''data2'']"] c
    by (simp add: p) (simp add: newAdapter_def rbac_db_def stored_def savePolicyLine_def)
qed

text \<open>
  C6 as stated fails when no constraint is present: every row satisfies the empty
  conjunction, yet \<^verbatim>\<open>removeFilteredPolicy('', '', 0)\<close> deletes none of them.
\<close>

theorem removeFilteredPolicy_predicate_counterexample:
  "removeFilteredPolicy_predicate '''' 0 [] (stored 1 (savePolicyLine ''p'' [''alice'', ''data1'', ''read''])) \<and>
   stored 1 (savePolicyLine ''p'' [''alice'', ''data1'', ''read''])
     \<in> set (rows (db (snd (removeFilteredPolicy '''' '''' 0 [] (newAdapter rbac_db)))))"
  by (simp add: removeFilteredPolicy_predicate_def removeFilteredPolicy_def
      removeFilteredPolicy_loop.simps newAdapter_def rbac_db_def)

subsection \<open>C7\<close>



subsection \<open>C8\<close>

text \<open>
  C8. For the same policy type and tuple, \<^verbatim>\<open>removePolicy\<close> builds the clause list
  \<^verbatim>\<open>updatePolicy\<close> builds for its old rule: the equality on \<^verbatim>\<open>ptype\<close>, then one
  equality per tuple position below six. The delete statement of the one and the update
  statement of the other carry the same where clause, and a delete that succeeds removes
  exactly the rows on which all the clauses hold.
\<close>

theorem removePolicy_predicate_agrees_with_updatePolicy:
  "removePolicy_conditions pt (savePolicyLine pt rule)
     = updatePolicy_conditions pt (savePolicyLine pt rule) \<and>
   removePolicy_conditions pt (savePolicyLine pt rule)
     = Eq Col_ptype pt # map (\<lambda>i. Eq (v_column i) (rule ! i)) [0..<min (length rule) 6] \<and>
   (\<exists>w. log (db (snd (removePolicy sec pt rule a))) = log (db a) @ [Delete w] \<and>
        log (db (snd (updatePolicy sec' pt rule newRule a')))
          = log (db a') @ [Update (savePolicyLine pt newRule) w]) \<and>
   (\<not> fails (db a) \<longrightarrow>
      fst (removePolicy sec pt rule a) = Returned () \<and>
      rows (db (snd (removePolicy sec pt rule a)))
        = filter (\<lambda>r. \<not> list_all (\<lambda>c. holds c r)
                          (updatePolicy_conditions pt (savePolicyLine pt rule)))
            (rows (db a)))"
proof -
  have same: "removePolicy_conditions pt (savePolicyLine pt rule)
     = updatePolicy_conditions pt (savePolicyLine pt rule)"
    by (rule removePolicy_conditions_eq)
  have shape: "removePolicy_conditions pt (savePolicyLine pt rule)
     = Eq Col_ptype pt # map (\<lambda>i. Eq (v_column i) (rule ! i)) [0..<min (length rule) 6]"
    unfolding same by (rule updatePolicy_conditions_list)
  have "log (db (snd (removePolicy sec pt rule a)))
          = log (db a) @ [Delete (and_sql (updatePolicy_conditions pt (savePolicyLine pt rule)))] \<and>
        log (db (snd (updatePolicy sec' pt rule newRule a')))
          = log (db a') @ [Update (savePolicyLine pt newRule)
               (and_sql (updatePolicy_conditions pt (savePolicyLine pt rule)))]"
    unfolding log_removePolicy log_updatePolicy same by simp
  then have logs: "\<exists>w. log (db (snd (removePolicy sec pt rule a))) = log (db a) @ [Delete w] \<and>
        log (db (snd (updatePolicy sec' pt rule newRule a')))
          = log (db a') @ [Update (savePolicyLine pt newRule) w]"
    by (rule exI)
  have del: "fst (removePolicy sec pt rule a) = Returned () \<and>
      rows (db (snd (removePolicy sec pt rule a)))
        = filter (\<lambda>r. \<not> list_all (\<lambda>c. holds c r)
                          (updatePolicy_conditions pt (savePolicyLine pt rule)))
            (rows (db a))"
    if "\<not> fails (db a)"
    unfolding removePolicy_ok [OF that] updatePolicy_conditions_hold
    by (simp add: rows_issue)
  show ?thesis
    using same shape logs del by blast
qed

text \<open>The removal of the repository's tests: four clauses, the first row goes.\<close>

theorem removePolicy_predicate_agrees_with_updatePolicy_witness:
  "removePolicy_conditions ''p'' (savePolicyLine ''p'' [''alice'', ''data1'', ''read''])
     = [Eq Col_ptype ''p'', Eq Col_v0 ''alice'', Eq Col_v1 ''data1'', Eq Col_v2 ''read''] \<and>
   updatePolicy_conditions ''p'' (savePolicyLine ''p'' [''alice'', ''data1'', ''read''])
     = [Eq Col_ptype ''p'', Eq Col_v0 ''alice'', Eq Col_v1 ''data1'', Eq Col_v2 ''read''] \<and>
   map id_col (rows (db (snd (removePolicy ''p'' ''p'' [''alice'', ''data1'', ''read'']
        (newAdapter rbac_db))))) = [2, 3, 4, 5]"
proof -
  let ?rule = "[''alice'', ''data1'', ''read'']"
  note t = removePolicy_predicate_agrees_with_updatePolicy
    [of "''p''" ?rule "''p''" "newAdapter rbac_db" "''p''" ?rule "newAdapter rbac_db"]
  have nf: "\<not> fails (db (newAdapter rbac_db))"
    by (simp add: fails_def newAdapter_def rbac_db_def)
  have up: "[0..<min (length ?rule) 6] = [0, 1, 2]"
    by (simp add: upt_rec)
  have cs: "removePolicy_conditions ''p'' (savePolicyLine ''p'' ?rule)
     = [Eq Col_ptype ''p'', Eq Col_v0 ''alice'', Eq Col_v1 ''data1'', Eq Col_v2 ''read'']"
  proof -
    have "removePolicy_conditions ''p'' (savePolicyLine ''p'' ?rule)
        = Eq Col_ptype ''p'' # map (\<lambda>i. Eq (v_column i) (?rule ! i)) [0..<min (length ?rule) 6]"
      using t by blast
    then show ?thesis unfolding up by (simp add: v_column_def)
  qed
  have cs': "updatePolicy_conditions ''p'' (savePolicyLine ''p'' ?rule)
     = [Eq Col_ptype ''p'', Eq Col_v0 ''alice'', Eq Col_v1 ''data1'', Eq Col_v2 ''read'']"
  proof -
    have "removePolicy_conditions ''p'' (savePolicyLine ''p'' ?rule)
        = updatePolicy_conditions ''p'' (savePolicyLine ''p'' ?rule)"
      using t by blast
    then show ?thesis using cs by simp
  qed
  have "rows (db (snd (removePolicy ''p'' ''p'' ?rule (newAdapter rbac_db))))
        = filter (\<lambda>r. \<not> list_all (\<lambda>c. holds c r)
                          (updatePolicy_conditions ''p'' (savePolicyLine ''p'' ?rule)))
            (rows (db (newAdapter rbac_db)))"
    using t nf by blast
  then have "map id_col (rows (db (snd (removePolicy ''p'' ''p'' ?rule (newAdapter rbac_db)))))
      = [2, 3, 4, 5]"
    unfolding cs'
    by (simp add: newAdapter_def rbac_db_def stored_def savePolicyLine_def colval_def)
  then show ?thesis using cs cs' by blast
qed

subsection \<open>C9\<close>



subsection \<open>C10\<close>

text \<open>
  C10. With the empty tuple \<^verbatim>\<open>removePolicy\<close> builds the equality on \<^verbatim>\<open>ptype\<close> and
  nothing else, so a delete that succeeds removes every row of that policy type and
  keeps the others.
\<close>

theorem removePolicy_empty_rule_deletes_ptype:
  "removePolicy_conditions pt (savePolicyLine pt []) = [Eq Col_ptype pt] \<and>
   (\<not> fails (db a) \<longrightarrow>
      fst (removePolicy sec pt [] a) = Returned () \<and>
      rows (db (snd (removePolicy sec pt [] a)))
        = filter (\<lambda>r. ptype r \<noteq> Some pt) (rows (db a)))"
proof -
  have c: "removePolicy_conditions pt (savePolicyLine pt []) = [Eq Col_ptype pt]"
    by (simp add: removePolicy_conditions_def savePolicyLine_def)
  have d: "fst (removePolicy sec pt [] a) = Returned () \<and>
      rows (db (snd (removePolicy sec pt [] a)))
        = filter (\<lambda>r. ptype r \<noteq> Some pt) (rows (db a))"
    if "\<not> fails (db a)"
    unfolding removePolicy_ok [OF that] by (simp add: rows_issue)
  show ?thesis using c d by blast
qed

text \<open>On the tests' table: without the \<^verbatim>\<open>p\<close> rows, and without the \<^verbatim>\<open>g\<close> row.\<close>

theorem removePolicy_empty_rule_deletes_ptype_witness:
  "map id_col (rows (db (snd (removePolicy ''p'' ''p'' [] (newAdapter rbac_db))))) = [5] \<and>
   map id_col (rows (db (snd (removePolicy ''g'' ''g'' [] (newAdapter rbac_db))))) = [1, 2, 3, 4]"
proof -
  have nf: "\<not> fails (db (newAdapter rbac_db))"
    by (simp add: fails_def newAdapter_def rbac_db_def)
  have p: "rows (db (snd (removePolicy ''p'' ''p'' [] (newAdapter rbac_db))))
      = filter (\<lambda>r. ptype r \<noteq> Some ''p'') (rows (db (newAdapter rbac_db)))"
    using removePolicy_empty_rule_deletes_ptype [of "''p''" "newAdapter rbac_db" "''p''"] nf
    by blast
  have g: "rows (db (snd (removePolicy ''g'' ''g'' [] (newAdapter rbac_db))))
      = filter (\<lambda>r. ptype r \<noteq> Some ''g'') (rows (db (newAdapter rbac_db)))"
    using removePolicy_empty_rule_deletes_ptype [of "''g''" "newAdapter rbac_db" "''g''"] nf
    by blast
  show ?thesis
    unfolding p g by (simp add: newAdapter_def rbac_db_def stored_def savePolicyLine_def)
qed

end
